theory Spec2Isabelle
  imports Main "HOL-Library.Multiset"
begin

section \<open>Python values and exceptions\<close>

text \<open>
  The helpers of \<^verbatim>\<open>market_utils.py\<close> and \<^verbatim>\<open>analyze_catalog.py\<close> are applied to the
  cells of a DataFrame column, so their argument is either a \<^verbatim>\<open>str\<close> or some other object
  (\<^verbatim>\<open>None\<close>, a float NaN, ...). Characters outside ASCII never match the character classes
  used below, so a string is a list of \<^typ>\<open>char\<close>.
\<close>

datatype py_arg = Str string | NotStr

text \<open>
  The exceptions that occur in the modelled code. All of them are subclasses of
  \<^verbatim>\<open>Exception\<close>. \<open>FetchError\<close> stands for whatever exception the external client raises
  on a transport, API or export failure.
\<close>

datatype py_exn = TypeError | AttributeError | ValueError | OverflowError | FetchError

section \<open>Market-name parser\<close>

subsection \<open>The regular expression\<close>

text \<open>
  \<^verbatim>\<open>re.search(r'-([0-9]+[A-Z]{3}[0-9]{2})-', market_name)\<close>.
  The classes \<^verbatim>\<open>[0-9]\<close> and \<^verbatim>\<open>[A-Z]\<close> are the ASCII digits and upper-case letters.
\<close>

definition is_digit :: "char \<Rightarrow> bool" where
  "is_digit c = (c \<in> set ''0123456789'')"

definition is_upper :: "char \<Rightarrow> bool" where
  "is_upper c = (c \<in> set ''ABCDEFGHIJKLMNOPQRSTUVWXYZ'')"

text \<open>
  An attempt to match the pattern at the very start of \<open>s\<close>, returning group 1.
  The greedy \<^verbatim>\<open>[0-9]+\<close> takes the longest run of digits; giving a digit back cannot help,
  because the next element \<^verbatim>\<open>[A-Z]\<close> would then face a digit. After the digits come exactly
  three upper-case letters, two digits and the closing hyphen.
\<close>

definition match_here :: "string \<Rightarrow> string option" where
  "match_here s =
     (case s of
        [] \<Rightarrow> None
      | h # r \<Rightarrow>
          if h \<noteq> CHR ''-'' then None
          else let ds = takeWhile is_digit r; r1 = dropWhile is_digit r in
            if ds = [] then None
            else (case r1 of
                    a # b # c # y1 # y2 # h2 # _ \<Rightarrow>
                      if is_upper a \<and> is_upper b \<and> is_upper c \<and> is_digit y1 \<and> is_digit y2
                         \<and> h2 = CHR ''-''
                      then Some (ds @ [a, b, c, y1, y2]) else None
                  | _ \<Rightarrow> None))"

text \<open>\<^verbatim>\<open>re.search\<close> scans from left to right and returns the leftmost match.\<close>

fun re_search :: "string \<Rightarrow> string option" where
  "re_search [] = match_here []"
| "re_search (c # cs) =
     (case match_here (c # cs) of Some g \<Rightarrow> Some g | None \<Rightarrow> re_search cs)"

subsection \<open>Expiry extraction\<close>

definition month_map :: "(string \<times> string) list" where
  "month_map =
     [(''JAN'', ''01''), (''FEB'', ''02''), (''MAR'', ''03''), (''APR'', ''04''),
      (''MAY'', ''05''), (''JUN'', ''06''), (''JUL'', ''07''), (''AUG'', ''08''),
      (''SEP'', ''09''), (''OCT'', ''10''), (''NOV'', ''11''), (''DEC'', ''12'')]"

text \<open>
  The body of the \<^verbatim>\<open>try\<close> block of \<^verbatim>\<open>extract_expiration_date\<close>. \<^verbatim>\<open>re.search\<close> raises
  \<^verbatim>\<open>TypeError\<close> when its subject is not a string. The slices \<^verbatim>\<open>[:2]\<close>, \<^verbatim>\<open>[2:5]\<close>, \<^verbatim>\<open>[5:7]\<close>
  are \<open>take\<close>/\<open>drop\<close> and never raise. The parameter \<open>suffix\<close> is what the f-string appends
  after the day: nothing in \<^verbatim>\<open>market_utils.py\<close>, a time of day in \<^verbatim>\<open>analyze_catalog.py\<close>.
\<close>

definition expiration_body :: "string \<Rightarrow> py_arg \<Rightarrow> py_exn + string option" where
  "expiration_body suffix market_name =
     (case market_name of
        NotStr \<Rightarrow> Inl TypeError
      | Str s \<Rightarrow>
          (case re_search s of
             None \<Rightarrow> Inr None
           | Some date_str \<Rightarrow>
               let day = take 2 date_str;
                   month_abbr = take 3 (drop 2 date_str);
                   year = ''20'' @ take 2 (drop 5 date_str)
               in (case map_of month_map month_abbr of
                     Some month \<Rightarrow> Inr (Some (year @ ''-'' @ month @ ''-'' @ day @ suffix))
                   | None \<Rightarrow> Inr None)))"

text \<open>\<^verbatim>\<open>except Exception: return None\<close>\<close>

definition except_return_None :: "py_exn + 'a option \<Rightarrow> py_exn + 'a option" where
  "except_return_None r = (case r of Inl e \<Rightarrow> Inr None | Inr v \<Rightarrow> Inr v)"

text \<open>\<^verbatim>\<open>market_utils.extract_expiration_date\<close>\<close>

definition extract_expiration_date :: "py_arg \<Rightarrow> py_exn + string option" where
  "extract_expiration_date market_name = except_return_None (expiration_body [] market_name)"

text \<open>\<^verbatim>\<open>analyze_catalog.extract_expiration_date\<close>\<close>

definition analyze_catalog_extract_expiration_date :: "py_arg \<Rightarrow> py_exn + string option" where
  "analyze_catalog_extract_expiration_date market_name =
     except_return_None (expiration_body ''T08:00:00+00:00'' market_name)"

subsection \<open>Strike and option type\<close>

text \<open>\<^verbatim>\<open>str.split('-')\<close>: the fields between hyphens; an empty string gives one empty field.\<close>

fun split_hyphen :: "string \<Rightarrow> string list" where
  "split_hyphen [] = [[]]"
| "split_hyphen (c # cs) =
     (if c = CHR ''-'' then [] # split_hyphen cs
      else (case split_hyphen cs of
              [] \<Rightarrow> [[c]]
            | f # fs \<Rightarrow> (c # f) # fs))"

text \<open>
  The body of the outer \<^verbatim>\<open>try\<close> of \<^verbatim>\<open>extract_strike_and_type\<close>. Python's builtin
  \<^verbatim>\<open>float\<close> is a parameter \<open>pyfloat\<close>: \<open>None\<close> is its \<^verbatim>\<open>ValueError\<close>, the only exception it
  raises on a string. \<^verbatim>\<open>.split\<close> on an object that is not a string raises
  \<^verbatim>\<open>AttributeError\<close>.
\<close>

definition strike_and_type_body ::
  "(string \<Rightarrow> 'f option) \<Rightarrow> py_arg \<Rightarrow> py_exn + ('f option \<times> string option)" where
  "strike_and_type_body pyfloat market_name =
     (case market_name of
        NotStr \<Rightarrow> Inl AttributeError
      | Str s \<Rightarrow>
          let parts = split_hyphen s in
          if length parts \<ge> 6 then
            (case pyfloat (parts ! 4) of
               Some strike \<Rightarrow> Inr (Some strike, Some (parts ! 5))
             | None \<Rightarrow> Inr (None, if length parts > 5 then Some (parts ! 5) else None))
          else Inr (None, None))"

text \<open>\<^verbatim>\<open>except Exception: return None, None\<close>\<close>

definition extract_strike_and_type ::
  "(string \<Rightarrow> 'f option) \<Rightarrow> py_arg \<Rightarrow> py_exn + ('f option \<times> string option)" where
  "extract_strike_and_type pyfloat market_name =
     (case strike_and_type_body pyfloat market_name of
        Inl e \<Rightarrow> Inr (None, None)
      | Inr r \<Rightarrow> Inr r)"

section \<open>Dates and times\<close>

text \<open>
  A \<^verbatim>\<open>datetime.date\<close> is identified with its proleptic Gregorian ordinal
  (\<^verbatim>\<open>date.toordinal()\<close>): day 1 is 0001-01-01 (\<^verbatim>\<open>date.min\<close>) and day 3652059 is
  9999-12-31 (\<^verbatim>\<open>date.max\<close>). A \<^verbatim>\<open>datetime\<close> is a date with a time of day, counted in
  microseconds since midnight; a \<^verbatim>\<open>timedelta\<close> is a number of days with a non-negative
  remainder below one day, which is Python's normal form with seconds and microseconds
  taken together.
\<close>

type_synonym date = int

record datetime =
  dt_date :: date
  dt_micro :: int

record timedelta =
  td_days :: int
  td_micro :: int

definition micro_per_day :: int where
  "micro_per_day = 86400000000"

definition date_min :: date where
  "date_min = 1"

definition date_max :: date where
  "date_max = 3652059"

definition valid_date :: "date \<Rightarrow> bool" where
  "valid_date d = (date_min \<le> d \<and> d \<le> date_max)"

text \<open>\<^verbatim>\<open>a <= b\<close> on datetimes.\<close>

definition datetime_le :: "datetime \<Rightarrow> datetime \<Rightarrow> bool" where
  "datetime_le a b =
     (dt_date a < dt_date b \<or> (dt_date a = dt_date b \<and> dt_micro a \<le> dt_micro b))"

text \<open>\<^verbatim>\<open>datetime.combine(d, datetime.min.time())\<close>: the date at 00:00:00.\<close>

definition combine_min_time :: "date \<Rightarrow> datetime" where
  "combine_min_time d = \<lparr>dt_date = d, dt_micro = 0\<rparr>"

text \<open>
  \<^verbatim>\<open>timedelta(days=n)\<close> raises \<^verbatim>\<open>OverflowError\<close> when the magnitude of \<open>n\<close> exceeds
  999999999 days.
\<close>

definition timedelta_of_days :: "int \<Rightarrow> py_exn + timedelta" where
  "timedelta_of_days n =
     (if - 999999999 \<le> n \<and> n \<le> 999999999 then Inr \<lparr>td_days = n, td_micro = 0\<rparr>
      else Inl OverflowError)"

text \<open>
  \<^verbatim>\<open>dt - td\<close>: raises \<^verbatim>\<open>OverflowError\<close> (date value out of range) when the result
  leaves the years 1 to 9999.
\<close>

definition datetime_minus :: "datetime \<Rightarrow> timedelta \<Rightarrow> py_exn + datetime" where
  "datetime_minus dt td =
     (let us = dt_micro dt - td_micro td;
          d = dt_date dt - td_days td + us div micro_per_day
      in if valid_date d then Inr \<lparr>dt_date = d, dt_micro = us mod micro_per_day\<rparr>
         else Inl OverflowError)"

text \<open>\<^verbatim>\<open>a - b\<close> on two datetimes: a normalised timedelta. It never overflows.\<close>

definition datetime_diff :: "datetime \<Rightarrow> datetime \<Rightarrow> timedelta" where
  "datetime_diff a b =
     (let us = dt_micro a - dt_micro b
      in \<lparr>td_days = dt_date a - dt_date b + us div micro_per_day,
          td_micro = us mod micro_per_day\<rparr>)"

section \<open>Window calculator\<close>

text \<open>\<^verbatim>\<open>market_utils.calculate_data_period_for_expiry\<close>\<close>

definition calculate_data_period_for_expiry ::
  "date \<Rightarrow> int \<Rightarrow> py_exn + (datetime \<times> datetime)" where
  "calculate_data_period_for_expiry expiry_date days_before_expiry =
     (let expiry_datetime = combine_min_time expiry_date in
      case timedelta_of_days days_before_expiry of
        Inl e \<Rightarrow> Inl e
      | Inr td \<Rightarrow>
          (case datetime_minus expiry_datetime td of
             Inl e \<Rightarrow> Inl e
           | Inr start_time \<Rightarrow> Inr (start_time, expiry_datetime)))"

section \<open>Expiry grouper\<close>

text \<open>
  A row of the catalog DataFrame, as \<^verbatim>\<open>get_markets_with_expiry\<close> leaves it: rows without
  an expiry have been removed and the column \<^verbatim>\<open>expiration_date\<close> holds timestamps.
\<close>

record catalog_row =
  market :: string
  expiration_date :: datetime

text \<open>
  The boolean mask
  \<^verbatim>\<open>(catalog['expiration_date'] >= start_date) & (catalog['expiration_date'] <= end_date)\<close>.
\<close>

definition expiry_in_range :: "datetime \<Rightarrow> datetime \<Rightarrow> catalog_row \<Rightarrow> bool" where
  "expiry_in_range start_date end_date r =
     (datetime_le start_date (expiration_date r) \<and> datetime_le (expiration_date r) end_date)"

text \<open>\<^verbatim>\<open>.dt.date\<close>: the calendar date of a timestamp.\<close>

definition expiry_day :: "catalog_row \<Rightarrow> date" where
  "expiry_day r = dt_date (expiration_date r)"

text \<open>
  \<^verbatim>\<open>df.groupby(df['expiration_date'].dt.date)\<close>: one group for each distinct key, the keys in
  ascending order (pandas sorts group keys by default), each group holding its rows in the
  order of the frame.
\<close>

definition groupby_date :: "catalog_row list \<Rightarrow> (date \<times> catalog_row list) list" where
  "groupby_date df =
     map (\<lambda>k. (k, filter (\<lambda>r. expiry_day r = k) df)) (sort (remdups (map expiry_day df)))"

text \<open>
  \<^verbatim>\<open>market_utils.fetch_markets_by_expiry_date\<close>. The dictionary it returns is the list of
  its items in insertion order. The summary line that the function prints is left out.
\<close>

definition fetch_markets_by_expiry_date ::
  "catalog_row list \<Rightarrow> datetime \<Rightarrow> datetime \<Rightarrow> (date \<times> string list) list" where
  "fetch_markets_by_expiry_date catalog start_date end_date =
     (let filtered_catalog = filter (expiry_in_range start_date end_date) catalog
      in map (\<lambda>(expiry_date, group). (expiry_date, map market group))
           (groupby_date filtered_catalog))"

section \<open>Batched fetch orchestrator\<close>

text \<open>
  What a run does to the outside world, in order: lines printed, calls of the external
  client, batches handed to \<^verbatim>\<open>asyncio.gather\<close> (each coroutine named by the expiry date it
  was created for) and calls of \<^verbatim>\<open>asyncio.sleep\<close>. A printed line is recorded by its kind
  and the values formatted into it.
\<close>

datatype message =
    MsgFetching nat date datetime datetime
  | MsgSaved date
  | MsgError date
  | MsgNoMarkets
  | MsgBatchDone nat
  | MsgCompleted nat nat

datatype event =
    Print message
  | Fetch "string list" datetime datetime
  | Gather "date list"
  | Sleep nat

text \<open>What a Python function hands back: \<^verbatim>\<open>None\<close> or an integer.\<close>

datatype py_value = PyNone | PyInt int

text \<open>
  The external client. Each method stands for the whole chain
  \<^verbatim>\<open>client.get_market_...(markets=..., start_time=..., end_time=..., ...).parallel().export_to_csv_files()\<close>:
  it writes its files and returns (\<open>None\<close>), or raises (\<open>Some e\<close>).
\<close>

record client =
  get_market_greeks :: "string list \<Rightarrow> datetime \<Rightarrow> datetime \<Rightarrow> py_exn option"
  get_market_implied_volatility :: "string list \<Rightarrow> datetime \<Rightarrow> datetime \<Rightarrow> py_exn option"

text \<open>
  The common text of \<^verbatim>\<open>fetch_greeks_for_expiry\<close> and \<^verbatim>\<open>fetch_iv_for_expiry\<close>; \<open>export\<close> is
  the client method called. The window is computed before the \<^verbatim>\<open>try\<close>, so an exception of
  the window calculator leaves the coroutine; an exception of the client is caught.
\<close>

definition fetch_for_expiry ::
  "(string list \<Rightarrow> datetime \<Rightarrow> datetime \<Rightarrow> py_exn option) \<Rightarrow> string list \<Rightarrow> date \<Rightarrow> int
     \<Rightarrow> event list \<times> (py_exn + bool)" where
  "fetch_for_expiry export markets expiry_date days_before_expiry =
     (case calculate_data_period_for_expiry expiry_date days_before_expiry of
        Inl e \<Rightarrow> ([], Inl e)
      | Inr (start_time, end_time) \<Rightarrow>
          (case export markets start_time end_time of
             None \<Rightarrow>
               ([Print (MsgFetching (length markets) expiry_date start_time end_time),
                 Fetch markets start_time end_time,
                 Print (MsgSaved expiry_date)], Inr True)
           | Some e \<Rightarrow>
               ([Print (MsgFetching (length markets) expiry_date start_time end_time),
                 Fetch markets start_time end_time,
                 Print (MsgError expiry_date)], Inr False)))"

definition fetch_greeks_for_expiry ::
  "client \<Rightarrow> string list \<Rightarrow> date \<Rightarrow> int \<Rightarrow> event list \<times> (py_exn + bool)" where
  "fetch_greeks_for_expiry c = fetch_for_expiry (get_market_greeks c)"

definition fetch_iv_for_expiry ::
  "client \<Rightarrow> string list \<Rightarrow> date \<Rightarrow> int \<Rightarrow> event list \<times> (py_exn + bool)" where
  "fetch_iv_for_expiry c = fetch_for_expiry (get_market_implied_volatility c)"

text \<open>
  A coroutine object waiting in \<^verbatim>\<open>tasks\<close>: the expiry date it was created for and what
  running it does.
\<close>

type_synonym task = "date \<times> event list \<times> (py_exn + bool)"

definition task_events :: "task \<Rightarrow> event list" where
  "task_events t = fst (snd t)"

definition task_result :: "task \<Rightarrow> py_exn + bool" where
  "task_result t = snd (snd t)"

text \<open>
  \<^verbatim>\<open>await asyncio.gather(*batch)\<close>. The coroutines contain no \<^verbatim>\<open>await\<close>, so they run one
  after the other in the order given, all of them; then the list of their results is
  returned, or the first exception is raised to the caller.
\<close>

fun first_exception :: "(py_exn + bool) list \<Rightarrow> py_exn + bool list" where
  "first_exception [] = Inr []"
| "first_exception (Inl e # rs) = Inl e"
| "first_exception (Inr b # rs) =
     (case first_exception rs of Inl e \<Rightarrow> Inl e | Inr bs \<Rightarrow> Inr (b # bs))"

definition gather :: "task list \<Rightarrow> event list \<times> (py_exn + bool list)" where
  "gather batch =
     (Gather (map fst batch) # concat (map task_events batch),
      first_exception (map task_result batch))"

definition MAX_CONCURRENT_TASKS :: nat where
  "MAX_CONCURRENT_TASKS = 5"

text \<open>
  The loop \<^verbatim>\<open>for i in range(0, len(tasks), MAX_CONCURRENT_TASKS)\<close> with its body; \<open>results\<close>
  is the list extended so far.
\<close>

function batch_loop :: "task list \<Rightarrow> nat \<Rightarrow> bool list \<Rightarrow> event list \<times> (py_exn + bool list)" where
  "batch_loop tasks i results =
     (if i < length tasks then
        let batch = take MAX_CONCURRENT_TASKS (drop i tasks);
            (ev, r) = gather batch
        in (case r of
              Inl e \<Rightarrow> (ev, Inl e)
            | Inr batch_results \<Rightarrow>
                let pause = (if i + MAX_CONCURRENT_TASKS < length tasks
                             then [Print (MsgBatchDone (i div MAX_CONCURRENT_TASKS + 1)), Sleep 2]
                             else []);
                    (ev', r') = batch_loop tasks (i + MAX_CONCURRENT_TASKS) (results @ batch_results)
                in (ev @ pause @ ev', r'))
      else ([], Inr results))"
  by pat_completeness auto
termination
  by (relation "measure (\<lambda>(tasks, i, results). length tasks - i)")
     (auto simp: MAX_CONCURRENT_TASKS_def)

text \<open>
  The common text of \<^verbatim>\<open>save_greeks_data\<close> and \<^verbatim>\<open>save_implied_volatility_data\<close> from the test
  \<^verbatim>\<open>if not grouped_markets\<close> on. The lines before it obtain \<open>grouped_markets\<close> from the
  external catalog through \<open>fetch_markets_by_expiry_date\<close>; here it is a parameter, as is the
  coroutine function \<open>fetch\<close>. The two files differ in the client method called and in the
  wording of the lines printed, nowhere else. The first branch ends in \<^verbatim>\<open>return None\<close>, the
  other runs off the end of the function, which is \<^verbatim>\<open>None\<close> as well.
\<close>

definition save_grouped ::
  "(string list \<Rightarrow> date \<Rightarrow> int \<Rightarrow> event list \<times> (py_exn + bool))
     \<Rightarrow> (date \<times> string list) list \<Rightarrow> int \<Rightarrow> event list \<times> (py_exn + py_value)" where
  "save_grouped fetch grouped_markets days_before_expiry =
     (if grouped_markets = [] then ([Print MsgNoMarkets], Inr PyNone)
      else
        let tasks = map (\<lambda>(expiry_date, markets).
                           (expiry_date, fetch markets expiry_date days_before_expiry))
                      grouped_markets;
            (ev, r) = batch_loop tasks 0 []
        in (case r of
              Inl e \<Rightarrow> (ev, Inl e)
            | Inr results \<Rightarrow>
                let successful = count_list results True
                in (ev @ [Print (MsgCompleted successful (length grouped_markets))],
                    Inr PyNone)))"

definition save_greeks_data ::
  "client \<Rightarrow> (date \<times> string list) list \<Rightarrow> int \<Rightarrow> event list \<times> (py_exn + py_value)" where
  "save_greeks_data c = save_grouped (fetch_greeks_for_expiry c)"

definition save_implied_volatility_data ::
  "client \<Rightarrow> (date \<times> string list) list \<Rightarrow> int \<Rightarrow> event list \<times> (py_exn + py_value)" where
  "save_implied_volatility_data c = save_grouped (fetch_iv_for_expiry c)"

section \<open>Vocabulary of the specification\<close>

text \<open>
  The definitions of this section are not code of the repository. They say, in the words of
  the specification, what the theorems below compare the code with.
\<close>

text \<open>
  Time as the specification speaks of it. A timestamp is an instant, counted in
  microseconds; its calendar date is the number of whole days in it; a well-formed
  timestamp has a time of day below 24 hours, as every Python \<^verbatim>\<open>datetime\<close> has. An entry lies
  in the closed range from \<open>start_date\<close> to \<open>end_date\<close> when the instant of its expiry is
  neither before the one nor after the other.
\<close>

definition well_formed :: "datetime \<Rightarrow> bool" where
  "well_formed t = (0 \<le> dt_micro t \<and> dt_micro t < 86400000000)"

definition instant :: "datetime \<Rightarrow> int" where
  "instant t = dt_date t * 86400000000 + dt_micro t"

definition calendar_date :: "datetime \<Rightarrow> int" where
  "calendar_date t = instant t div 86400000000"

definition expires_within :: "datetime \<Rightarrow> datetime \<Rightarrow> catalog_row \<Rightarrow> bool" where
  "expires_within start_date end_date r =
     (instant start_date \<le> instant (expiration_date r)
      \<and> instant (expiration_date r) \<le> instant end_date)"

text \<open>
  A token of the shape \<^verbatim>\<open><digits><3 uppercase letters><2 digits>\<close>: a non-empty run of
  digits, then exactly three upper-case letters and two digits.
\<close>

definition is_date_token :: "string \<Rightarrow> bool" where
  "is_date_token t =
     (let ds = takeWhile is_digit t; r = dropWhile is_digit t in
        ds \<noteq> [] \<and> length r = 5 \<and> list_all is_upper (take 3 r) \<and> list_all is_digit (drop 3 r))"

text \<open>A hyphen-surrounded substring of that shape occurs somewhere in \<open>s\<close>.\<close>

definition has_date_token :: "string \<Rightarrow> bool" where
  "has_date_token s =
     (\<exists>pre tok post. s = pre @ CHR ''-'' # tok @ CHR ''-'' # post \<and> is_date_token tok)"

text \<open>
  A market identifier \<^verbatim>\<open><exch>-<asset>-<expiry>-<strike>-<type>-option\<close>.
\<close>

definition market_id :: "string \<Rightarrow> string \<Rightarrow> string \<Rightarrow> string \<Rightarrow> string \<Rightarrow> string" where
  "market_id exch asset expiry strike ty =
     exch @ ''-'' @ asset @ ''-'' @ expiry @ ''-'' @ strike @ ''-'' @ ty @ ''-option''"

text \<open>\<^verbatim>\<open>'-'.join(fields)\<close>, the inverse of splitting at hyphens.\<close>

fun join_hyphen :: "string list \<Rightarrow> string" where
  "join_hyphen [] = []"
| "join_hyphen [f] = f"
| "join_hyphen (f # g # fs) = f @ CHR ''-'' # join_hyphen (g # fs)"

text \<open>
  ``Partition the ordered list of tasks into consecutive batches of at most C tasks.''
\<close>

function batches_of :: "nat \<Rightarrow> 'a list \<Rightarrow> 'a list list" where
  "batches_of n xs = (if n = 0 \<or> xs = [] then [] else take n xs # batches_of n (drop n xs))"
  by pat_completeness auto
termination
  by (relation "measure (\<lambda>(n, xs). length xs)") auto

text \<open>``Between batches (not after the last), pause.''\<close>

fun pause_between :: "'a \<Rightarrow> 'a list \<Rightarrow> 'a list" where
  "pause_between p [] = []"
| "pause_between p [x] = [x]"
| "pause_between p (x # y # ys) = x # p # pause_between p (y # ys)"

text \<open>The events that schedule work: batches given to \<^verbatim>\<open>asyncio.gather\<close>, and sleeps.\<close>

definition is_scheduling :: "event \<Rightarrow> bool" where
  "is_scheduling e = (case e of Gather ks \<Rightarrow> True | Sleep n \<Rightarrow> True | _ \<Rightarrow> False)"

text \<open>The calls of the external client.\<close>

definition is_fetch :: "event \<Rightarrow> bool" where
  "is_fetch e = (case e of Fetch ms s t \<Rightarrow> True | _ \<Rightarrow> False)"

text \<open>
  ``start = end - lookback days'': the start of the window of an expiry date, and the
  condition under which the window calculator can produce it: the expiry date is a date,
  the lookback is not negative and does not reach back to day 0. For a date and a
  non-negative lookback this is exactly when the calculator, and with it the fetch task of
  the group, does not raise \<^verbatim>\<open>OverflowError\<close>.
\<close>

definition window_computable :: "int \<Rightarrow> date \<times> string list \<Rightarrow> bool" where
  "window_computable days g = (valid_date (fst g) \<and> 0 \<le> days \<and> days < fst g)"

definition window_start :: "date \<Rightarrow> int \<Rightarrow> datetime" where
  "window_start d days = \<lparr>dt_date = d - days, dt_micro = 0\<rparr>"

text \<open>The client method \<open>export\<close> returns normally on the group \<open>g\<close> and its window.\<close>

definition export_ok ::
  "(string list \<Rightarrow> datetime \<Rightarrow> datetime \<Rightarrow> py_exn option) \<Rightarrow> int \<Rightarrow> date \<times> string list \<Rightarrow> bool" where
  "export_ok export days g =
     (export (snd g) (window_start (fst g) days) (combine_min_time (fst g)) = None)"

text \<open>The list \<^verbatim>\<open>tasks\<close> built from the items of \<^verbatim>\<open>grouped_markets\<close>.\<close>

definition tasks_of ::
  "(string list \<Rightarrow> date \<Rightarrow> int \<Rightarrow> event list \<times> (py_exn + bool))
     \<Rightarrow> (date \<times> string list) list \<Rightarrow> int \<Rightarrow> task list" where
  "tasks_of fetch grouped days = map (\<lambda>(d, ms). (d, fetch ms d days)) grouped"

text \<open>
  Unfolding the recursive equations is done by hand in the proofs, one step at a time.
\<close>

declare batches_of.simps [simp del]

declare batch_loop.simps [simp del]

subsection \<open>Inputs of the examples\<close>

text \<open>
  A client whose methods raise on one list of markets and return on every other, and one
  whose methods always return; twelve and three expiry groups on consecutive Fridays from
  2024-12-13 (day 739233); and a catalog of five entries, the first expiring at 08:00, the
  fourth after the end of December 2024 and the last before its beginning.
\<close>

definition fails_for :: "string list \<Rightarrow> client" where
  "fails_for bad =
     \<lparr>get_market_greeks = (\<lambda>ms s t. if ms = bad then Some FetchError else None),
      get_market_implied_volatility = (\<lambda>ms s t. if ms = bad then Some FetchError else None)\<rparr>"

definition twelve_groups :: "(date \<times> string list) list" where
  "twelve_groups =
     [(739233, [''a'']), (739240, [''b'']), (739247, [''c'']), (739254, [''d'']),
      (739261, [''e'']), (739268, [''f'']), (739275, [''g'']), (739282, [''h'']),
      (739289, [''i'']), (739296, [''j'']), (739303, [''k'']), (739310, [''l''])]"

definition three_groups :: "(date \<times> string list) list" where
  "three_groups =
     [(739233, [''deribit-BTC-13DEC24-100000-C-option'']),
      (739240, [''deribit-BTC-20DEC24-100000-P-option'']),
      (739247, [''deribit-BTC-27DEC24-100000-C-option''])]"

definition example_catalog :: "catalog_row list" where
  "example_catalog =
     [\<lparr>market = ''deribit-BTC-13DEC24-100000-C-option'',
       expiration_date = \<lparr>dt_date = 739233, dt_micro = 28800000000\<rparr>\<rparr>,
      \<lparr>market = ''deribit-BTC-20DEC24-100000-P-option'',
       expiration_date = \<lparr>dt_date = 739240, dt_micro = 0\<rparr>\<rparr>,
      \<lparr>market = ''deribit-BTC-13DEC24-100000-P-option'',
       expiration_date = \<lparr>dt_date = 739233, dt_micro = 0\<rparr>\<rparr>,
      \<lparr>market = ''deribit-BTC-10JAN25-100000-C-option'',
       expiration_date = \<lparr>dt_date = 739261, dt_micro = 0\<rparr>\<rparr>,
      \<lparr>market = ''deribit-BTC-29NOV24-100000-C-option'',
       expiration_date = \<lparr>dt_date = 739219, dt_micro = 0\<rparr>\<rparr>]"

definition always_returns :: client where
  "always_returns =
     \<lparr>get_market_greeks = (\<lambda>ms s t. None), get_market_implied_volatility = (\<lambda>ms s t. None)\<rparr>"

section \<open>Facts about the regular expression\<close>

lemma upper_not_digit: "is_upper c \<Longrightarrow> \<not> is_digit c"
  by (auto simp: is_upper_def is_digit_def)

lemma hyphen_not_digit: "\<not> is_digit CHR ''-''"
  by (simp add: is_digit_def)

lemma hyphen_not_upper: "\<not> is_upper CHR ''-''"
  by (simp add: is_upper_def)

lemma is_date_token_iff:
  "is_date_token t \<longleftrightarrow>
     (\<exists>ds us ys. t = ds @ us @ ys \<and> ds \<noteq> [] \<and> list_all is_digit ds
        \<and> length us = 3 \<and> list_all is_upper us \<and> length ys = 2 \<and> list_all is_digit ys)"
proof
  assume h: "is_date_token t"
  let ?ds = "takeWhile is_digit t" and ?r = "dropWhile is_digit t"
  from h have 1: "?ds \<noteq> []" and 2: "length ?r = 5" and 3: "list_all is_upper (take 3 ?r)"
    and 4: "list_all is_digit (drop 3 ?r)"
    by (simp_all add: is_date_token_def Let_def)
  have "t = ?ds @ take 3 ?r @ drop 3 ?r" by simp
  moreover have "list_all is_digit ?ds" by (simp add: list_all_iff) (meson set_takeWhileD)
  moreover have "length (take 3 ?r) = 3" "length (drop 3 ?r) = 2" using 2 by simp_all
  ultimately show "\<exists>ds us ys. t = ds @ us @ ys \<and> ds \<noteq> [] \<and> list_all is_digit ds
        \<and> length us = 3 \<and> list_all is_upper us \<and> length ys = 2 \<and> list_all is_digit ys"
    using 1 3 4 by blast
next
  assume "\<exists>ds us ys. t = ds @ us @ ys \<and> ds \<noteq> [] \<and> list_all is_digit ds
        \<and> length us = 3 \<and> list_all is_upper us \<and> length ys = 2 \<and> list_all is_digit ys"
  then obtain ds us ys where t: "t = ds @ us @ ys" and ds: "ds \<noteq> []" "list_all is_digit ds"
    and us: "length us = 3" "list_all is_upper us" and ys: "length ys = 2" "list_all is_digit ys"
    by blast
  from us obtain u us' where u: "us = u # us'" "is_upper u" by (cases us) auto
  have nd: "\<not> is_digit u" using u upper_not_digit by blast
  have tw: "takeWhile is_digit t = ds"
    using ds nd u t by (simp add: list_all_iff)
  have dw: "dropWhile is_digit t = us @ ys"
    using ds nd u t by (simp add: list_all_iff)
  show "is_date_token t"
    using tw dw ds us ys by (simp add: is_date_token_def)
qed

lemma date_token_no_hyphen: "is_date_token t \<Longrightarrow> CHR ''-'' \<notin> set t"
  using hyphen_not_digit hyphen_not_upper
  by (auto simp: is_date_token_iff list_all_iff)

lemma match_here_Some:
  assumes "match_here s = Some g"
  shows "\<exists>post. s = CHR ''-'' # g @ CHR ''-'' # post \<and> is_date_token g"
proof -
  from assms obtain r where s: "s = CHR ''-'' # r"
    by (cases s) (auto simp: match_here_def split: if_splits)
  let ?ds = "takeWhile is_digit r" and ?r1 = "dropWhile is_digit r"
  from assms s have ds: "?ds \<noteq> []"
    by (auto simp: match_here_def Let_def split: if_splits)
  from assms s ds obtain a b c y1 y2 post where r1: "?r1 = a # b # c # y1 # y2 # CHR ''-'' # post"
    and cl: "is_upper a" "is_upper b" "is_upper c" "is_digit y1" "is_digit y2"
    and g: "g = ?ds @ [a, b, c, y1, y2]"
    by (auto simp: match_here_def Let_def split: if_splits list.splits)
  have "r = ?ds @ ?r1" by simp
  then have "r = g @ CHR ''-'' # post" using r1 g by simp
  moreover have "is_date_token g"
    unfolding is_date_token_iff
  proof (intro exI conjI)
    show "g = ?ds @ [a, b, c] @ [y1, y2]" using g by simp
    show "list_all is_digit ?ds" by (simp add: list_all_iff) (meson set_takeWhileD)
  qed (use ds cl in simp_all)
  ultimately show ?thesis using s by simp
qed

lemma match_here_date_token:
  assumes "is_date_token g"
  shows "match_here (CHR ''-'' # g @ CHR ''-'' # post) = Some g"
proof -
  from assms obtain ds us ys where g: "g = ds @ us @ ys" and ds: "ds \<noteq> []" "list_all is_digit ds"
    and us: "length us = 3" "list_all is_upper us" and ys: "length ys = 2" "list_all is_digit ys"
    unfolding is_date_token_iff by blast
  from us obtain a b c where a: "us = [a, b, c]" "is_upper a" "is_upper b" "is_upper c"
    by (cases us; cases "tl us"; cases "tl (tl us)") auto
  from ys obtain y1 y2 where y: "ys = [y1, y2]" "is_digit y1" "is_digit y2"
    by (cases ys; cases "tl ys") auto
  have nd: "\<not> is_digit a" using a upper_not_digit by blast
  have tw: "takeWhile is_digit (g @ CHR ''-'' # post) = ds"
    using ds nd a g by (simp add: list_all_iff)
  have dw: "dropWhile is_digit (g @ CHR ''-'' # post) = [a, b, c, y1, y2] @ CHR ''-'' # post"
    using ds nd a y g by (simp add: list_all_iff)
  show ?thesis
    using tw dw ds a y g by (simp add: match_here_def)
qed

lemma first_hyphen_unique:
  assumes "xs @ c # ys = xs' @ c # ys'" "c \<notin> set xs" "c \<notin> set xs'"
  shows "xs = xs' \<and> ys = ys'"
  using assms
proof (induction xs arbitrary: xs')
  case Nil
  then show ?case by (cases xs') auto
next
  case (Cons x xs)
  then show ?case by (cases xs') auto
qed

lemma match_here_field:
  assumes "CHR ''-'' \<notin> set t"
  shows "match_here (CHR ''-'' # t @ CHR ''-'' # rest) = (if is_date_token t then Some t else None)"
proof (cases "is_date_token t")
  case True
  then show ?thesis by (simp add: match_here_date_token)
next
  case False
  have "match_here (CHR ''-'' # t @ CHR ''-'' # rest) = None"
  proof (rule ccontr)
    assume "match_here (CHR ''-'' # t @ CHR ''-'' # rest) \<noteq> None"
    then obtain g where "match_here (CHR ''-'' # t @ CHR ''-'' # rest) = Some g" by auto
    from match_here_Some [OF this] obtain post where
      e: "t @ CHR ''-'' # rest = g @ CHR ''-'' # post" and g: "is_date_token g" by auto
    from first_hyphen_unique [OF e assms date_token_no_hyphen [OF g]] have "t = g" by simp
    with g False show False by simp
  qed
  with False show ?thesis by simp
qed

lemma match_here_not_hyphen: "c \<noteq> CHR ''-'' \<Longrightarrow> match_here (c # cs) = None"
  by (simp add: match_here_def)

lemma re_search_skip: "CHR ''-'' \<notin> set pre \<Longrightarrow> re_search (pre @ s) = re_search s"
  by (induction pre) (auto simp: match_here_not_hyphen)

lemma re_search_Some:
  "re_search s = Some g \<Longrightarrow>
     \<exists>pre post. s = pre @ CHR ''-'' # g @ CHR ''-'' # post \<and> is_date_token g"
proof (induction s)
  case Nil
  then show ?case by (simp add: match_here_def)
next
  case (Cons c cs)
  show ?case
  proof (cases "match_here (c # cs)")
    case None
    with Cons.prems have "re_search cs = Some g" by simp
    from Cons.IH [OF this] obtain pre post where
      "cs = pre @ CHR ''-'' # g @ CHR ''-'' # post" "is_date_token g" by blast
    then have "c # cs = (c # pre) @ CHR ''-'' # g @ CHR ''-'' # post \<and> is_date_token g" by simp
    then show ?thesis by blast
  next
    case (Some g')
    with Cons.prems have "g' = g" by simp
    with match_here_Some [OF Some] obtain post where
      "c # cs = [] @ CHR ''-'' # g @ CHR ''-'' # post \<and> is_date_token g" by auto
    then show ?thesis by blast
  qed
qed

lemma re_search_found:
  "is_date_token tok \<Longrightarrow> re_search (pre @ CHR ''-'' # tok @ CHR ''-'' # post) \<noteq> None"
  by (induction pre) (auto simp: match_here_date_token split: option.splits)

lemma re_search_None_iff: "re_search s = None \<longleftrightarrow> \<not> has_date_token s"
proof
  assume "re_search s = None"
  then show "\<not> has_date_token s"
    unfolding has_date_token_def using re_search_found by fastforce
next
  assume n: "\<not> has_date_token s"
  show "re_search s = None"
  proof (rule ccontr)
    assume "re_search s \<noteq> None"
    then obtain g where "re_search s = Some g" by auto
    from re_search_Some [OF this] n show False unfolding has_date_token_def by blast
  qed
qed

section \<open>The expiry parser on two-digit days\<close>

lemma month_map_Some:
  "map_of month_map m = Some n \<Longrightarrow> length m = 3 \<and> list_all is_upper m"
  by (auto simp: month_map_def is_upper_def split: if_splits)

lemma has_date_token_Cons: "has_date_token s \<Longrightarrow> has_date_token (c # s)"
  unfolding has_date_token_def by (metis append_Cons)

lemma hyphen_prefix:
  assumes "xs @ c # X = g @ c # Y" "c \<notin> set g"
  shows "\<exists>Z. xs @ [c] = g @ c # Z"
  using assms
proof (induction g arbitrary: xs)
  case Nil
  then show ?case by (cases xs) auto
next
  case (Cons a g)
  then show ?case by (cases xs) auto
qed

lemma re_search_first:
  assumes "is_date_token tok" "\<not> has_date_token (pre @ ''-'')"
  shows "re_search (pre @ CHR ''-'' # tok @ CHR ''-'' # post) = Some tok"
  using assms(2)
proof (induction pre)
  case Nil
  then show ?case using assms(1) by (simp add: match_here_date_token)
next
  case (Cons c cs)
  have "match_here (c # cs @ CHR ''-'' # tok @ CHR ''-'' # post) = None"
  proof (rule ccontr)
    assume "match_here (c # cs @ CHR ''-'' # tok @ CHR ''-'' # post) \<noteq> None"
    then obtain g where "match_here (c # cs @ CHR ''-'' # tok @ CHR ''-'' # post) = Some g"
      by auto
    from match_here_Some [OF this] obtain p where
      c: "c = CHR ''-''" and e: "cs @ CHR ''-'' # tok @ CHR ''-'' # post = g @ CHR ''-'' # p"
      and g: "is_date_token g" by auto
    from hyphen_prefix [OF e date_token_no_hyphen [OF g]] obtain Z where
      "cs @ ''-'' = g @ CHR ''-'' # Z" by auto
    then have "(c # cs) @ ''-'' = [] @ CHR ''-'' # g @ CHR ''-'' # Z" using c by simp
    then have "has_date_token ((c # cs) @ ''-'')"
      unfolding has_date_token_def using g by blast
    with Cons.prems show False by simp
  qed
  moreover have "\<not> has_date_token (cs @ ''-'')"
    using Cons.prems has_date_token_Cons by fastforce
  ultimately show ?case using Cons.IH by simp
qed

lemma expiration_body_token:
  assumes "re_search s = Some ([d1, d2] @ mmm @ [y1, y2])" "map_of month_map mmm = Some mm"
  shows "expiration_body suffix (Str s) =
           Inr (Some (''20'' @ [y1, y2] @ ''-'' @ mm @ ''-'' @ [d1, d2] @ suffix))"
proof -
  have "length mmm = 3" using month_map_Some [OF assms(2)] by simp
  then show ?thesis using assms by (simp add: expiration_body_def)
qed

lemma two_digit_token:
  assumes "is_digit d1" "is_digit d2" "map_of month_map mmm = Some mm" "is_digit y1" "is_digit y2"
  shows "is_date_token ([d1, d2] @ mmm @ [y1, y2])"
  unfolding is_date_token_iff
  using assms month_map_Some [OF assms(3)] by (intro exI [of _ "[d1, d2]"] exI [of _ mmm] exI [of _ "[y1, y2]"]) simp

text \<open>
  \<open>split_hyphen\<close> is \<^verbatim>\<open>str.split('-')\<close>: one field more than there are hyphens, no hyphen
  inside a field, and joining the fields with hyphens gives the string back.
\<close>

lemma length_split_hyphen: "length (split_hyphen s) = Suc (count_list s CHR ''-'')"
  by (induction s) (auto split: list.splits)

lemma join_split_hyphen: "join_hyphen (split_hyphen s) = s"
proof (induction s)
  case Nil
  then show ?case by simp
next
  case (Cons c cs)
  show ?case
  proof (cases "c = CHR ''-''")
    case True
    with Cons show ?thesis by (cases "split_hyphen cs") simp_all
  next
    case False
    with Cons show ?thesis
      by (cases "split_hyphen cs"; cases "tl (split_hyphen cs)") auto
  qed
qed

lemma split_hyphen_fields: "f \<in> set (split_hyphen s) \<Longrightarrow> CHR ''-'' \<notin> set f"
proof (induction s arbitrary: f)
  case Nil
  then show ?case by simp
next
  case (Cons c cs)
  then show ?case
    by (cases "split_hyphen cs") (auto split: if_splits)
qed

lemma split_hyphen_field:
  "CHR ''-'' \<notin> set f \<Longrightarrow> split_hyphen (f @ CHR ''-'' # rest) = f # split_hyphen rest"
  by (induction f) auto

text \<open>
  Claim C10. The expiry parser makes no calendar check on the day. Whenever the first date
  token of a market identifier has a two-digit day \<open>d1 d2\<close>, a month code \<open>mmm\<close> of the table
  and a two-digit year \<open>y1 y2\<close>, the parser of \<^verbatim>\<open>market_utils.py\<close> returns the string
  \<^verbatim>\<open>20YY-MM-DD\<close> built from these characters, whatever the digits of the day are, and the
  parser of \<^verbatim>\<open>analyze_catalog.py\<close> returns the same string followed by its fixed time of day.
  That the token is the first one is the hypothesis that no date token closes inside
  \<open>pre\<close> followed by the hyphen.
\<close>

theorem expiry_no_calendar_check:
  assumes "is_digit d1" "is_digit d2" "map_of month_map mmm = Some mm" "is_digit y1" "is_digit y2"
    and "\<not> has_date_token (pre @ ''-'')"
  shows "extract_expiration_date (Str (pre @ ''-'' @ [d1, d2] @ mmm @ [y1, y2] @ ''-'' @ post))
           = Inr (Some (''20'' @ [y1, y2] @ ''-'' @ mm @ ''-'' @ [d1, d2]))
       \<and> analyze_catalog_extract_expiration_date
           (Str (pre @ ''-'' @ [d1, d2] @ mmm @ [y1, y2] @ ''-'' @ post))
           = Inr (Some (''20'' @ [y1, y2] @ ''-'' @ mm @ ''-'' @ [d1, d2] @ ''T08:00:00+00:00''))"
proof -
  have "re_search (pre @ CHR ''-'' # ([d1, d2] @ mmm @ [y1, y2]) @ CHR ''-'' # post)
          = Some ([d1, d2] @ mmm @ [y1, y2])"
    using re_search_first [OF two_digit_token [OF assms(1-5)] assms(6)] .
  then have "re_search (pre @ ''-'' @ [d1, d2] @ mmm @ [y1, y2] @ ''-'' @ post)
          = Some ([d1, d2] @ mmm @ [y1, y2])" by simp
  from expiration_body_token [OF this assms(3)] show ?thesis
    by (simp add: extract_expiration_date_def analyze_catalog_extract_expiration_date_def
        except_return_None_def)
qed

text \<open>An instance: the day 32 of April 2022.\<close>

theorem expiry_no_calendar_check_witness:
  "is_digit CHR ''3'' \<and> is_digit CHR ''2'' \<and> map_of month_map ''APR'' = Some ''04''
   \<and> \<not> has_date_token ''deribit-BTC-''
   \<and> extract_expiration_date (Str ''deribit-BTC-32APR22-34000-C-option'') = Inr (Some ''2022-04-32'')
   \<and> analyze_catalog_extract_expiration_date (Str ''deribit-BTC-32APR22-34000-C-option'')
       = Inr (Some ''2022-04-32T08:00:00+00:00'')"
proof -
  have n: "\<not> has_date_token (''deribit-BTC'' @ ''-'')"
    unfolding re_search_None_iff [symmetric]
    by (simp add: match_here_def is_digit_def is_upper_def)
  have d: "is_digit CHR ''3''" "is_digit CHR ''2''" by (simp_all add: is_digit_def)
  have m: "map_of month_map ''APR'' = Some ''04''" by (simp add: month_map_def)
  from expiry_no_calendar_check [OF d(1) d(2) m d(2) d(2) n, of "''34000-C-option''"] n d m
  show ?thesis by simp
qed

section \<open>The parsers on the documented examples and on malformed input\<close>

text \<open>
  Claim C1, evaluated at the identifier of the docstrings,
  \<^verbatim>\<open>deribit-BTC-10APR22-34000-C-option\<close>. The expiry parser returns \<^verbatim>\<open>2022-04-10\<close>. The
  fields of the identifier are numbered from 0, so the strike \<^verbatim>\<open>34000\<close> is field 3 and the
  type \<^verbatim>\<open>C\<close> is field 4; \<^verbatim>\<open>extract_strike_and_type\<close> reads fields 4 and 5 instead. For any
  behaviour of \<^verbatim>\<open>float\<close> the strike it returns is the outcome of \<^verbatim>\<open>float('C')\<close> and the
  option type it returns is \<^verbatim>\<open>'option'\<close>, not 34000.0 and \<^verbatim>\<open>'C'\<close>.
\<close>

theorem strike_and_type_docstring_example:
  "extract_expiration_date (Str ''deribit-BTC-10APR22-34000-C-option'') = Inr (Some ''2022-04-10'')
   \<and> split_hyphen ''deribit-BTC-10APR22-34000-C-option''
       = [''deribit'', ''BTC'', ''10APR22'', ''34000'', ''C'', ''option'']
   \<and> extract_strike_and_type pyfloat (Str ''deribit-BTC-10APR22-34000-C-option'')
       = Inr (pyfloat ''C'', Some ''option'')"
proof -
  have 1: "extract_expiration_date (Str ''deribit-BTC-10APR22-34000-C-option'')
             = Inr (Some ''2022-04-10'')"
    by (simp add: extract_expiration_date_def except_return_None_def expiration_body_def
        match_here_def is_digit_def is_upper_def month_map_def)
  have 2: "split_hyphen ''deribit-BTC-10APR22-34000-C-option''
             = [''deribit'', ''BTC'', ''10APR22'', ''34000'', ''C'', ''option'']"
    by simp
  have 3: "extract_strike_and_type pyfloat (Str ''deribit-BTC-10APR22-34000-C-option'')
             = Inr (pyfloat ''C'', Some ''option'')"
    unfolding extract_strike_and_type_def strike_and_type_body_def py_arg.case 2
    by (cases "pyfloat ''C''") simp_all
  from 1 2 3 show ?thesis by simp
qed

text \<open>
  The same on every identifier of the form \<^verbatim>\<open><exch>-<asset>-<DDMMMYY>-<strike>-<type>-option\<close>
  whose fields contain no hyphen and whose asset is not itself shaped like a date token: the
  expiry parser returns the date of the token, and the strike/type parser returns the
  outcome of \<^verbatim>\<open>float\<close> on the type field together with the literal suffix.
\<close>

lemma parsers_on_market_id:
  assumes "CHR ''-'' \<notin> set exch" "CHR ''-'' \<notin> set asset" "\<not> is_date_token asset"
    and "is_digit d1" "is_digit d2" "map_of month_map mmm = Some mm" "is_digit y1" "is_digit y2"
    and "CHR ''-'' \<notin> set strike" "CHR ''-'' \<notin> set ty"
  shows "extract_expiration_date (Str (market_id exch asset ([d1, d2] @ mmm @ [y1, y2]) strike ty))
           = Inr (Some (''20'' @ [y1, y2] @ ''-'' @ mm @ ''-'' @ [d1, d2]))"
    and "extract_strike_and_type pyfloat
           (Str (market_id exch asset ([d1, d2] @ mmm @ [y1, y2]) strike ty))
           = Inr (pyfloat ty, Some ''option'')"
proof -
  define t where "t = [d1, d2] @ mmm @ [y1, y2]"
  have tok: "is_date_token t" unfolding t_def using two_digit_token [OF assms(4-8)] .
  have th: "CHR ''-'' \<notin> set t" using date_token_no_hyphen [OF tok] .
  have id: "market_id exch asset t strike ty
              = exch @ CHR ''-'' # asset @ CHR ''-'' # t @ CHR ''-'' # strike
                  @ CHR ''-'' # ty @ CHR ''-'' # ''option''"
    by (simp add: market_id_def)
  let ?tail = "strike @ CHR ''-'' # ty @ CHR ''-'' # ''option''"
  have "re_search (market_id exch asset t strike ty)
          = re_search (CHR ''-'' # asset @ CHR ''-'' # t @ CHR ''-'' # ?tail)"
    unfolding id using re_search_skip [OF assms(1)] by simp
  also have "\<dots> = re_search (asset @ CHR ''-'' # t @ CHR ''-'' # ?tail)"
    using match_here_field [OF assms(2)] assms(3) by simp
  also have "\<dots> = re_search (CHR ''-'' # t @ CHR ''-'' # ?tail)"
    using re_search_skip [OF assms(2)] by simp
  also have "\<dots> = Some t"
    using match_here_date_token [OF tok] by simp
  finally have "re_search (market_id exch asset ([d1, d2] @ mmm @ [y1, y2]) strike ty)
                  = Some ([d1, d2] @ mmm @ [y1, y2])"
    by (simp only: t_def)
  from expiration_body_token [OF this assms(6)]
  show "extract_expiration_date (Str (market_id exch asset ([d1, d2] @ mmm @ [y1, y2]) strike ty))
           = Inr (Some (''20'' @ [y1, y2] @ ''-'' @ mm @ ''-'' @ [d1, d2]))"
    by (simp add: extract_expiration_date_def except_return_None_def)
  have "split_hyphen ''option'' = [''option'']" by simp
  then have "split_hyphen (ty @ CHR ''-'' # ''option'') = [ty, ''option'']"
    using split_hyphen_field [OF assms(10), of "''option''"] by simp
  then have "split_hyphen ?tail = [strike, ty, ''option'']"
    using split_hyphen_field [OF assms(9)] by simp
  then have "split_hyphen (t @ CHR ''-'' # ?tail) = [t, strike, ty, ''option'']"
    using split_hyphen_field [OF th] by simp
  then have "split_hyphen (asset @ CHR ''-'' # t @ CHR ''-'' # ?tail)
               = [asset, t, strike, ty, ''option'']"
    using split_hyphen_field [OF assms(2)] by simp
  then have "split_hyphen (exch @ CHR ''-'' # asset @ CHR ''-'' # t @ CHR ''-'' # ?tail)
               = [exch, asset, t, strike, ty, ''option'']"
    using split_hyphen_field [OF assms(1)] by simp
  then have sp: "split_hyphen (market_id exch asset t strike ty)
               = [exch, asset, t, strike, ty, ''option'']"
    by (simp only: id)
  have "extract_strike_and_type pyfloat (Str (market_id exch asset t strike ty))
           = Inr (pyfloat ty, Some ''option'')"
    unfolding extract_strike_and_type_def strike_and_type_body_def py_arg.case sp
    by (cases "pyfloat ty") simp_all
  then show "extract_strike_and_type pyfloat
           (Str (market_id exch asset ([d1, d2] @ mmm @ [y1, y2]) strike ty))
           = Inr (pyfloat ty, Some ''option'')"
    by (simp only: t_def)
qed

text \<open>
  Claim C7, evaluated at an identifier whose date token has a one-digit day. The regular
  expression accepts the token \<^verbatim>\<open>5APR24\<close>, but the slices assume two day digits: the month
  code read is \<^verbatim>\<open>PR2\<close>, which is not in the table, and the parser returns \<^verbatim>\<open>None\<close>
  although the month code \<^verbatim>\<open>APR\<close> of the token is a recognized one.
\<close>

theorem expiry_one_digit_day_is_None:
  "re_search ''deribit-BTC-5APR24-70000-C-option'' = Some ''5APR24''
   \<and> has_date_token ''deribit-BTC-5APR24-70000-C-option''
   \<and> map_of month_map ''APR'' = Some ''04''
   \<and> extract_expiration_date (Str ''deribit-BTC-5APR24-70000-C-option'') = Inr None"
proof -
  have r: "re_search ''deribit-BTC-5APR24-70000-C-option'' = Some ''5APR24''"
    by (simp add: match_here_def is_digit_def is_upper_def)
  then have "has_date_token ''deribit-BTC-5APR24-70000-C-option''"
    using re_search_None_iff [of "''deribit-BTC-5APR24-70000-C-option''"] by simp
  moreover have "map_of month_map ''APR'' = Some ''04''" by (simp add: month_map_def)
  moreover have "extract_expiration_date (Str ''deribit-BTC-5APR24-70000-C-option'') = Inr None"
    by (simp add: extract_expiration_date_def except_return_None_def expiration_body_def
        match_here_def is_digit_def is_upper_def month_map_def)
  ultimately show ?thesis using r by simp
qed

text \<open>
  Claim C8. For every string with no hyphen-surrounded substring of the shape
  \<^verbatim>\<open><digits><3 uppercase letters><2 digits>\<close> the expiry parser returns \<^verbatim>\<open>None\<close>; whenever
  the body of its \<^verbatim>\<open>try\<close> block raises, the parser returns \<^verbatim>\<open>None\<close>; and on no argument
  does the parser raise.
\<close>

theorem expiry_absent_without_pattern:
  "(\<not> has_date_token s \<longrightarrow> extract_expiration_date (Str s) = Inr None)
   \<and> (expiration_body [] arg = Inl e \<longrightarrow> extract_expiration_date arg = Inr None)
   \<and> extract_expiration_date arg \<noteq> Inl e'"
proof (intro conjI impI)
  assume "\<not> has_date_token s"
  then have "re_search s = None" by (simp add: re_search_None_iff)
  then show "extract_expiration_date (Str s) = Inr None"
    by (simp add: extract_expiration_date_def except_return_None_def expiration_body_def)
next
  assume "expiration_body [] arg = Inl e"
  then show "extract_expiration_date arg = Inr None"
    by (simp add: extract_expiration_date_def except_return_None_def)
next
  show "extract_expiration_date arg \<noteq> Inl e'"
    by (simp add: extract_expiration_date_def except_return_None_def split: sum.splits)
qed

text \<open>An instance: a perpetual future, and an argument that is not a string.\<close>

theorem expiry_absent_without_pattern_witness:
  "\<not> has_date_token ''deribit-BTC-PERPETUAL-future''
   \<and> extract_expiration_date (Str ''deribit-BTC-PERPETUAL-future'') = Inr None
   \<and> expiration_body [] NotStr = Inl TypeError
   \<and> extract_expiration_date NotStr = Inr None"
proof -
  have n: "\<not> has_date_token ''deribit-BTC-PERPETUAL-future''"
    unfolding re_search_None_iff [symmetric]
    by (simp add: match_here_def is_digit_def is_upper_def)
  have b: "expiration_body [] NotStr = Inl TypeError"
    by (simp add: expiration_body_def)
  from expiry_absent_without_pattern [of "''deribit-BTC-PERPETUAL-future''" NotStr TypeError]
  show ?thesis using n b by simp
qed

text \<open>
  Claim C9. A string with fewer than five hyphens has fewer than six hyphen-separated
  fields, and the strike/type parser returns \<^verbatim>\<open>(None, None)\<close> on it. A string with five
  hyphens or more has at least six fields; when \<^verbatim>\<open>float\<close> rejects the field of index 4,
  the strike is \<^verbatim>\<open>None\<close> and the field of index 5 is returned as the option type.
\<close>

theorem strike_and_type_by_field_count:
  "(count_list s CHR ''-'' < 5 \<longrightarrow>
      length (split_hyphen s) < 6
      \<and> extract_strike_and_type pyfloat (Str s) = Inr (None, None))
   \<and> (5 \<le> count_list s CHR ''-'' \<and> pyfloat (split_hyphen s ! 4) = None \<longrightarrow>
      6 \<le> length (split_hyphen s)
      \<and> extract_strike_and_type pyfloat (Str s) = Inr (None, Some (split_hyphen s ! 5)))"
  using length_split_hyphen [of s]
  by (simp add: extract_strike_and_type_def strike_and_type_body_def Let_def)

text \<open>An instance of each part, with a \<^verbatim>\<open>float\<close> that accepts \<^verbatim>\<open>34000\<close> only.\<close>

theorem strike_and_type_by_field_count_witness:
  "count_list ''deribit-BTC-10APR22-34000-C'' CHR ''-'' < 5
   \<and> extract_strike_and_type (\<lambda>s. if s = ''34000'' then Some (34000::int) else None)
        (Str ''deribit-BTC-10APR22-34000-C'') = Inr (None, None)
   \<and> 5 \<le> count_list ''deribit-BTC-10APR22-34000-abc-P-option'' CHR ''-''
   \<and> (\<lambda>s. if s = ''34000'' then Some (34000::int) else None)
        (split_hyphen ''deribit-BTC-10APR22-34000-abc-P-option'' ! 4) = None
   \<and> extract_strike_and_type (\<lambda>s. if s = ''34000'' then Some (34000::int) else None)
        (Str ''deribit-BTC-10APR22-34000-abc-P-option'') = Inr (None, Some ''P'')"
proof -
  let ?f = "\<lambda>s. if s = ''34000'' then Some (34000::int) else None"
  have a: "count_list ''deribit-BTC-10APR22-34000-C'' CHR ''-'' = 4" by simp
  have b: "split_hyphen ''deribit-BTC-10APR22-34000-abc-P-option''
             = [''deribit'', ''BTC'', ''10APR22'', ''34000'', ''abc'', ''P'', ''option'']" by simp
  have c: "count_list ''deribit-BTC-10APR22-34000-abc-P-option'' CHR ''-'' = 6" by simp
  from strike_and_type_by_field_count [of "''deribit-BTC-10APR22-34000-C''" ?f]
  have 1: "extract_strike_and_type ?f (Str ''deribit-BTC-10APR22-34000-C'') = Inr (None, None)"
    unfolding a by simp
  from strike_and_type_by_field_count [of "''deribit-BTC-10APR22-34000-abc-P-option''" ?f]
  have 2: "extract_strike_and_type ?f (Str ''deribit-BTC-10APR22-34000-abc-P-option'')
             = Inr (None, Some ''P'')"
    unfolding b c by simp
  show ?thesis unfolding a b c using 1 2 by simp
qed

section \<open>Grouping and windows\<close>

lemma mset_filter_disjoint:
  "(\<And>x. x \<in> set xs \<Longrightarrow> \<not> (P x \<and> Q x)) \<Longrightarrow>
     mset (filter P xs) + mset (filter Q xs) = mset (filter (\<lambda>x. P x \<or> Q x) xs)"
  by (induction xs) auto

lemma mset_concat_groups:
  "distinct ks \<Longrightarrow>
     mset (concat (map (\<lambda>k. filter (\<lambda>r. f r = k) xs) ks)) = mset (filter (\<lambda>r. f r \<in> set ks) xs)"
proof (induction ks)
  case Nil
  then show ?case by simp
next
  case (Cons k ks)
  then have d: "\<And>x. x \<in> set xs \<Longrightarrow> \<not> (f x = k \<and> f x \<in> set ks)" by auto
  have "mset (concat (map (\<lambda>k. filter (\<lambda>r. f r = k) xs) (k # ks)))
          = mset (filter (\<lambda>r. f r = k) xs) + mset (filter (\<lambda>r. f r \<in> set ks) xs)"
    using Cons by simp
  also have "\<dots> = mset (filter (\<lambda>r. f r = k \<or> f r \<in> set ks) xs)"
    using mset_filter_disjoint [OF d] by simp
  also have "\<dots> = mset (filter (\<lambda>r. f r \<in> set (k # ks)) xs)"
    by (rule arg_cong [where f = mset], rule filter_cong) auto
  finally show ?case .
qed

lemma groupby_date_keys:
  "map fst (groupby_date df) = sort (remdups (map expiry_day df))"
  by (simp add: groupby_date_def comp_def)

lemma groupby_date_mset: "mset (concat (map snd (groupby_date df))) = mset df"
proof -
  let ?ks = "sort (remdups (map expiry_day df))"
  have d: "distinct ?ks" by simp
  have "concat (map snd (groupby_date df))
          = concat (map (\<lambda>k. filter (\<lambda>r. expiry_day r = k) df) ?ks)"
    by (simp add: groupby_date_def comp_def)
  then have "mset (concat (map snd (groupby_date df)))
          = mset (filter (\<lambda>r. expiry_day r \<in> set ?ks) df)"
    using mset_concat_groups [OF d, of expiry_day df] by simp
  also have "\<dots> = mset df"
    by (rule arg_cong [where f = mset]) (simp add: filter_id_conv)
  finally show ?thesis .
qed

lemma fetch_markets_keys:
  "map fst (fetch_markets_by_expiry_date catalog s e)
     = sort (remdups (map expiry_day (filter (expiry_in_range s e) catalog)))"
  by (simp add: fetch_markets_by_expiry_date_def groupby_date_def comp_def)

lemma fetch_markets_group:
  "(k, ms) \<in> set (fetch_markets_by_expiry_date catalog s e) \<Longrightarrow>
     ms = map market (filter (\<lambda>r. expiry_in_range s e r \<and> expiry_day r = k) catalog)"
  by (auto simp: fetch_markets_by_expiry_date_def groupby_date_def conj_commute)

lemma fetch_markets_mset:
  "mset (concat (map snd (fetch_markets_by_expiry_date catalog s e)))
     = mset (map market (filter (expiry_in_range s e) catalog))"
proof -
  let ?df = "filter (expiry_in_range s e) catalog"
  have "map snd (fetch_markets_by_expiry_date catalog s e)
          = map (map market) (map snd (groupby_date ?df))"
    by (simp add: fetch_markets_by_expiry_date_def comp_def case_prod_unfold)
  then have "concat (map snd (fetch_markets_by_expiry_date catalog s e))
          = map market (concat (map snd (groupby_date ?df)))"
    by (simp add: map_concat)
  then show ?thesis
    using groupby_date_mset [of ?df] by (metis mset_map)
qed

text \<open>
  On well-formed timestamps the comparison of the code is the comparison of instants, and
  the key of the code is the calendar date.
\<close>

lemma datetime_le_instant:
  assumes "well_formed a" "well_formed b"
  shows "datetime_le a b \<longleftrightarrow> instant a \<le> instant b"
  using assms unfolding datetime_le_def instant_def well_formed_def by auto

lemma calendar_date_well_formed: "well_formed t \<Longrightarrow> calendar_date t = dt_date t"
  unfolding calendar_date_def instant_def well_formed_def by simp

lemma expiry_in_range_within:
  assumes "well_formed s" "well_formed e" "well_formed (expiration_date r)"
  shows "expiry_in_range s e r \<longleftrightarrow> expires_within s e r"
  using assms by (simp add: expiry_in_range_def expires_within_def datetime_le_instant)

lemma expiry_day_calendar:
  "well_formed (expiration_date r) \<Longrightarrow> expiry_day r = calendar_date (expiration_date r)"
  by (simp add: expiry_day_def calendar_date_well_formed)

text \<open>
  When the bounds and an expiry are all at midnight, the range is the closed range of
  calendar dates.
\<close>

lemma expires_within_midnight:
  assumes "dt_micro start_date = 0" "dt_micro end_date = 0" "dt_micro (expiration_date r) = 0"
  shows "expires_within start_date end_date r \<longleftrightarrow>
           calendar_date start_date \<le> calendar_date (expiration_date r)
           \<and> calendar_date (expiration_date r) \<le> calendar_date end_date"
  using assms by (simp add: expires_within_def calendar_date_def instant_def)

text \<open>
  Claim C3, amended. Bounds and expiries are timestamps, and the range is taken on
  instants, time of day included. For every catalog and bounds of well-formed timestamps,
  the grouper returns a dictionary whose keys are distinct and are exactly the calendar
  dates of the entries whose expiry instant lies between the instants of \<open>start_date\<close> and
  \<open>end_date\<close>, both included; the group under a key holds, in catalog order, the market of
  every such entry with that calendar date and of no other entry; and all groups together
  hold the markets of these entries, each as often as it occurs in the catalog. So such an
  entry is in the group of its calendar date and in no other, and every other entry is in
  none.
\<close>

theorem grouping_partitions_range:
  assumes "well_formed start_date" "well_formed end_date"
    and "list_all (\<lambda>r. well_formed (expiration_date r)) catalog"
  shows "(let grouped = fetch_markets_by_expiry_date catalog start_date end_date in
      distinct (map fst grouped)
    \<and> fst ` set grouped
        = (\<lambda>r. calendar_date (expiration_date r))
            ` {r \<in> set catalog. expires_within start_date end_date r}
    \<and> (\<forall>(k, ms) \<in> set grouped.
          ms = map market
                 (filter (\<lambda>r. expires_within start_date end_date r
                              \<and> calendar_date (expiration_date r) = k) catalog))
    \<and> mset (concat (map snd grouped))
          = mset (map market (filter (expires_within start_date end_date) catalog)))"
proof -
  let ?g = "fetch_markets_by_expiry_date catalog start_date end_date"
  have wf: "well_formed (expiration_date r)" if "r \<in> set catalog" for r
    using assms(3) that by (simp add: list_all_iff)
  have rng: "expiry_in_range start_date end_date r = expires_within start_date end_date r"
    if "r \<in> set catalog" for r
    using expiry_in_range_within [OF assms(1,2) wf [OF that]] .
  have day: "expiry_day r = calendar_date (expiration_date r)" if "r \<in> set catalog" for r
    using expiry_day_calendar [OF wf [OF that]] .
  have f: "filter (expiry_in_range start_date end_date) catalog
             = filter (expires_within start_date end_date) catalog"
    by (rule filter_cong [OF refl]) (rule rng)
  have 1: "distinct (map fst ?g)" by (simp add: fetch_markets_keys)
  have "set (map fst ?g) = expiry_day ` {r \<in> set catalog. expiry_in_range start_date end_date r}"
    unfolding fetch_markets_keys by auto
  also have "\<dots> = (\<lambda>r. calendar_date (expiration_date r))
                     ` {r \<in> set catalog. expires_within start_date end_date r}"
    using rng day by (auto simp: image_iff)
  finally have 2: "fst ` set ?g = (\<lambda>r. calendar_date (expiration_date r))
                     ` {r \<in> set catalog. expires_within start_date end_date r}"
    by simp
  have 3: "\<forall>(k, ms) \<in> set ?g.
          ms = map market
                 (filter (\<lambda>r. expires_within start_date end_date r
                              \<and> calendar_date (expiration_date r) = k) catalog)"
  proof (clarify)
    fix k ms assume "(k, ms) \<in> set ?g"
    from fetch_markets_group [OF this]
    have "ms = map market
                 (filter (\<lambda>r. expiry_in_range start_date end_date r \<and> expiry_day r = k) catalog)" .
    also have "filter (\<lambda>r. expiry_in_range start_date end_date r \<and> expiry_day r = k) catalog
             = filter (\<lambda>r. expires_within start_date end_date r
                              \<and> calendar_date (expiration_date r) = k) catalog"
      by (rule filter_cong [OF refl]) (simp add: rng day)
    finally show "ms = map market
                 (filter (\<lambda>r. expires_within start_date end_date r
                              \<and> calendar_date (expiration_date r) = k) catalog)" .
  qed
  have 4: "mset (concat (map snd ?g))
          = mset (map market (filter (expires_within start_date end_date) catalog))"
    using fetch_markets_mset [of catalog start_date end_date] by (simp only: f)
  from 1 2 3 4 show ?thesis by (simp only: Let_def)
qed

text \<open>
  An entry that expires at 00:00 on the calendar date of \<open>start_date\<close>, when \<open>start_date\<close>
  is at 10:00: its calendar date is in the closed range of the calendar dates of the
  bounds, and the entry is in no group.
\<close>

theorem grouping_start_time_counterexample:
  "calendar_date \<lparr>dt_date = 739233, dt_micro = 36000000000\<rparr>
     \<le> calendar_date \<lparr>dt_date = 739233, dt_micro = 0\<rparr>
   \<and> calendar_date \<lparr>dt_date = 739233, dt_micro = 0\<rparr>
     \<le> calendar_date \<lparr>dt_date = 739251, dt_micro = 0\<rparr>
   \<and> fetch_markets_by_expiry_date
       [\<lparr>market = ''deribit-BTC-13DEC24-100000-C-option'',
         expiration_date = \<lparr>dt_date = 739233, dt_micro = 0\<rparr>\<rparr>]
       \<lparr>dt_date = 739233, dt_micro = 36000000000\<rparr> \<lparr>dt_date = 739251, dt_micro = 0\<rparr> = []"
  by (simp add: calendar_date_def instant_def fetch_markets_by_expiry_date_def groupby_date_def
      expiry_in_range_def datetime_le_def expiry_day_def)

text \<open>
  A lookback that reaches day 0 or before makes the window calculator raise, whether the
  \<^verbatim>\<open>timedelta\<close> can be built or not.
\<close>

lemma calculate_data_period_overflow:
  assumes "valid_date expiry_date" "expiry_date \<le> days"
  shows "calculate_data_period_for_expiry expiry_date days = Inl OverflowError"
proof (cases "days \<le> 999999999")
  case True
  have "\<not> valid_date (expiry_date - days)"
    using assms by (simp add: valid_date_def date_min_def)
  then show ?thesis
    using True assms
    by (simp add: calculate_data_period_for_expiry_def timedelta_of_days_def datetime_minus_def
        combine_min_time_def micro_per_day_def valid_date_def date_min_def)
next
  case False
  then show ?thesis
    by (simp add: calculate_data_period_for_expiry_def timedelta_of_days_def)
qed

text \<open>
  Claim C4, amended. For every expiry date and every non-negative lookback that does not
  reach back before 0001-01-01 (the lookback is less than the ordinal of the expiry date),
  the window calculator returns a pair \<open>(start, end)\<close> where \<open>end\<close> is the expiry date at
  midnight and \<open>end - start\<close> is exactly the lookback in days. The calculator is a function
  of its two arguments, so two calls on the same arguments return the same pair.
\<close>

theorem window_spans_lookback:
  assumes "valid_date expiry_date" "0 \<le> days" "days < expiry_date"
  shows "\<exists>start_time end_time.
           calculate_data_period_for_expiry expiry_date days = Inr (start_time, end_time)
         \<and> end_time = combine_min_time expiry_date
         \<and> datetime_diff end_time start_time = \<lparr>td_days = days, td_micro = 0\<rparr>"
proof -
  have r: "days \<le> 999999999" using assms by (simp add: valid_date_def date_max_def)
  have v: "valid_date (expiry_date - days)"
    using assms by (simp add: valid_date_def date_min_def date_max_def)
  have "calculate_data_period_for_expiry expiry_date days
          = Inr (\<lparr>dt_date = expiry_date - days, dt_micro = 0\<rparr>, combine_min_time expiry_date)"
    using assms(2) r v
    by (simp add: calculate_data_period_for_expiry_def timedelta_of_days_def datetime_minus_def
        combine_min_time_def micro_per_day_def)
  moreover have "datetime_diff (combine_min_time expiry_date)
                   \<lparr>dt_date = expiry_date - days, dt_micro = 0\<rparr> = \<lparr>td_days = days, td_micro = 0\<rparr>"
    by (simp add: datetime_diff_def combine_min_time_def micro_per_day_def)
  ultimately show ?thesis by simp
qed

text \<open>An instance: the expiry 2024-12-13 (day 739233) with the default lookback of 22 days.\<close>

theorem window_spans_lookback_witness:
  "valid_date 739233 \<and> (0::int) \<le> 22 \<and> (22::int) < 739233
   \<and> calculate_data_period_for_expiry 739233 22
       = Inr (\<lparr>dt_date = 739211, dt_micro = 0\<rparr>, \<lparr>dt_date = 739233, dt_micro = 0\<rparr>)
   \<and> datetime_diff \<lparr>dt_date = 739233, dt_micro = 0\<rparr> \<lparr>dt_date = 739211, dt_micro = 0\<rparr>
       = \<lparr>td_days = 22, td_micro = 0\<rparr>"
proof -
  have v: "valid_date 739233" by (simp add: valid_date_def date_min_def date_max_def)
  from window_spans_lookback [OF v, of 22] obtain s t where
    "calculate_data_period_for_expiry 739233 22 = Inr (s, t)"
    "t = combine_min_time 739233" "datetime_diff t s = \<lparr>td_days = 22, td_micro = 0\<rparr>"
    by auto
  moreover have "calculate_data_period_for_expiry 739233 22
       = Inr (\<lparr>dt_date = 739211, dt_micro = 0\<rparr>, \<lparr>dt_date = 739233, dt_micro = 0\<rparr>)"
    by (simp add: calculate_data_period_for_expiry_def timedelta_of_days_def datetime_minus_def
        combine_min_time_def micro_per_day_def valid_date_def date_min_def date_max_def)
  ultimately show ?thesis using v by simp
qed

text \<open>The first day of the calendar with a lookback of one day: the subtraction overflows.\<close>

theorem window_overflow_counterexample:
  "valid_date 1 \<and> (0::int) \<le> 1 \<and> calculate_data_period_for_expiry 1 1 = Inl OverflowError"
  by (simp add: calculate_data_period_for_expiry_def timedelta_of_days_def datetime_minus_def
      combine_min_time_def micro_per_day_def valid_date_def date_min_def date_max_def)

section \<open>The batch loop\<close>

lemma batches_of_Nil [simp]: "batches_of n [] = []"
  by (simp add: batches_of.simps)

lemma batches_of_step:
  "0 < n \<Longrightarrow> xs \<noteq> [] \<Longrightarrow> batches_of n xs = take n xs # batches_of n (drop n xs)"
  by (subst batches_of.simps) simp

lemma batches_of_eq_Nil: "0 < n \<Longrightarrow> batches_of n xs = [] \<longleftrightarrow> xs = []"
  by (subst batches_of.simps) simp

lemma concat_batches_of: "0 < n \<Longrightarrow> concat (batches_of n xs) = xs"
proof (induction n xs rule: batches_of.induct)
  case (1 n xs)
  then show ?case by (cases "xs = []") (simp_all add: batches_of_step)
qed

lemma batches_of_sizes:
  "0 < n \<Longrightarrow> b \<in> set (batches_of n xs) \<Longrightarrow> 0 < length b \<and> length b \<le> n"
proof (induction n xs rule: batches_of.induct)
  case (1 n xs)
  show ?case
  proof (cases "xs = []")
    case True
    with 1 show ?thesis by simp
  next
    case False
    with 1 show ?thesis by (auto simp: batches_of_step)
  qed
qed

lemma pause_between_Cons:
  "pause_between p (x # xs) = x # (if xs = [] then [] else p # pause_between p xs)"
  by (cases xs) simp_all

lemma first_exception_Inr: "first_exception (map Inr bs) = Inr bs"
  by (induction bs) simp_all

lemma batch_loop_done: "\<not> i < length tasks \<Longrightarrow> batch_loop tasks i results = ([], Inr results)"
  by (subst batch_loop.simps) simp

lemma batch_loop_step:
  assumes "map task_result tasks = map Inr bs" "i < length tasks"
  shows "batch_loop tasks i results =
           (Gather (map fst (take 5 (drop i tasks)))
              # concat (map task_events (take 5 (drop i tasks)))
              @ (if i + 5 < length tasks then [Print (MsgBatchDone (i div 5 + 1)), Sleep 2] else [])
              @ fst (batch_loop tasks (i + 5) (results @ take 5 (drop i bs))),
            snd (batch_loop tasks (i + 5) (results @ take 5 (drop i bs))))"
proof -
  have "map task_result (take 5 (drop i tasks)) = map Inr (take 5 (drop i bs))"
    using assms(1) by (metis drop_map take_map)
  then have g: "gather (take 5 (drop i tasks)) =
          (Gather (map fst (take 5 (drop i tasks)))
             # concat (map task_events (take 5 (drop i tasks))),
           Inr (take 5 (drop i bs)))"
    by (simp add: gather_def first_exception_Inr)
  show ?thesis
    using assms(2) g
    by (subst batch_loop.simps) (simp add: MAX_CONCURRENT_TASKS_def case_prod_unfold Let_def)
qed

lemma batch_loop_results:
  assumes "map task_result tasks = map Inr bs"
  shows "snd (batch_loop tasks i results) = Inr (results @ drop i bs)"
proof (induction "length tasks - i" arbitrary: i results rule: less_induct)
  case less
  show ?case
  proof (cases "i < length tasks")
    case True
    then have "length tasks - (i + 5) < length tasks - i" by simp
    from less [OF this] have
      "snd (batch_loop tasks (i + 5) (results @ take 5 (drop i bs)))
         = Inr ((results @ take 5 (drop i bs)) @ drop (i + 5) bs)" .
    moreover have "take 5 (drop i bs) @ drop (i + 5) bs = drop i bs"
      by (metis add.commute append_take_drop_id drop_drop)
    ultimately show ?thesis
      using batch_loop_step [OF assms True] by simp
  next
    case False
    have "length bs = length tasks" using assms by (metis length_map)
    with False show ?thesis by (simp add: batch_loop_done)
  qed
qed

lemma batch_loop_scheduling:
  assumes "map task_result tasks = map Inr bs"
    and "\<And>t. t \<in> set tasks \<Longrightarrow> filter is_scheduling (task_events t) = []"
  shows "filter is_scheduling (fst (batch_loop tasks i results))
           = pause_between (Sleep 2) (map (\<lambda>b. Gather (map fst b)) (batches_of 5 (drop i tasks)))"
proof (induction "length tasks - i" arbitrary: i results rule: less_induct)
  case less
  show ?case
  proof (cases "i < length tasks")
    case True
    then have "length tasks - (i + 5) < length tasks - i" by simp
    from less [OF this] have IH:
      "filter is_scheduling (fst (batch_loop tasks (i + 5) (results @ take 5 (drop i bs))))
         = pause_between (Sleep 2)
             (map (\<lambda>b. Gather (map fst b)) (batches_of 5 (drop (i + 5) tasks)))" .
    have ne: "drop i tasks \<noteq> []" using True by simp
    have b: "batches_of 5 (drop i tasks)
               = take 5 (drop i tasks) # batches_of 5 (drop (i + 5) tasks)"
      using batches_of_step [OF _ ne, of 5] by (simp add: add.commute)
    have q: "filter is_scheduling (concat (map task_events (take 5 (drop i tasks)))) = []"
      using assms(2) by (auto simp: filter_concat dest!: in_set_takeD in_set_dropD)
    have e: "batches_of 5 (drop (i + 5) tasks) = [] \<longleftrightarrow> \<not> i + 5 < length tasks"
      by (auto simp: batches_of_eq_Nil)
    show ?thesis
      unfolding batch_loop_step [OF assms(1) True] b
      using q IH e
      by (simp add: pause_between_Cons is_scheduling_def)
  next
    case False
    then show ?thesis by (simp add: batch_loop_done)
  qed
qed

lemma batch_loop_fetches:
  assumes "map task_result tasks = map Inr bs"
  shows "filter is_fetch (fst (batch_loop tasks i results))
           = concat (map (\<lambda>t. filter is_fetch (task_events t)) (drop i tasks))"
proof (induction "length tasks - i" arbitrary: i results rule: less_induct)
  case less
  show ?case
  proof (cases "i < length tasks")
    case True
    then have "length tasks - (i + 5) < length tasks - i" by simp
    from less [OF this] have IH:
      "filter is_fetch (fst (batch_loop tasks (i + 5) (results @ take 5 (drop i bs))))
         = concat (map (\<lambda>t. filter is_fetch (task_events t)) (drop (i + 5) tasks))" .
    have "drop i tasks = take 5 (drop i tasks) @ drop (i + 5) tasks"
      by (metis add.commute append_take_drop_id drop_drop)
    then have "concat (map (\<lambda>t. filter is_fetch (task_events t)) (drop i tasks))
           = concat (map (\<lambda>t. filter is_fetch (task_events t)) (take 5 (drop i tasks)))
             @ concat (map (\<lambda>t. filter is_fetch (task_events t)) (drop (i + 5) tasks))"
      by (metis concat_append map_append)
    then show ?thesis
      unfolding batch_loop_step [OF assms(1) True]
      using IH by (simp add: is_fetch_def filter_concat comp_def)
  next
    case False
    then show ?thesis by (simp add: batch_loop_done)
  qed
qed

section \<open>Fetch tasks with computable windows\<close>

lemma calculate_data_period_in_range:
  assumes "valid_date d" "0 \<le> days" "days < d"
  shows "calculate_data_period_for_expiry d days = Inr (window_start d days, combine_min_time d)"
proof -
  have r: "days \<le> 999999999" using assms by (simp add: valid_date_def date_max_def)
  have v: "valid_date (d - days)"
    using assms by (simp add: valid_date_def date_min_def date_max_def)
  show ?thesis
    using assms(2) r v
    by (simp add: calculate_data_period_for_expiry_def timedelta_of_days_def datetime_minus_def
        combine_min_time_def micro_per_day_def window_start_def)
qed

lemma fetch_for_expiry_in_range:
  assumes "window_computable days (d, ms)"
  shows "fetch_for_expiry export ms d days =
           ([Print (MsgFetching (length ms) d (window_start d days) (combine_min_time d)),
             Fetch ms (window_start d days) (combine_min_time d),
             Print (if export_ok export days (d, ms) then MsgSaved d else MsgError d)],
            Inr (export_ok export days (d, ms)))"
proof -
  from assms have "calculate_data_period_for_expiry d days
                     = Inr (window_start d days, combine_min_time d)"
    by (simp add: window_computable_def calculate_data_period_in_range)
  then show ?thesis
    by (simp add: fetch_for_expiry_def export_ok_def split: option.splits)
qed

lemma tasks_of_keys: "map fst (tasks_of fetch grouped days) = map fst grouped"
  by (simp add: tasks_of_def comp_def case_prod_unfold)

lemma tasks_of_results:
  assumes "list_all (window_computable days) grouped"
  shows "map task_result (tasks_of (fetch_for_expiry export) grouped days)
           = map Inr (map (export_ok export days) grouped)"
  using assms
  by (induction grouped)
     (auto simp: tasks_of_def task_result_def fetch_for_expiry_in_range)

lemma tasks_of_no_scheduling:
  assumes "list_all (window_computable days) grouped"
    and "t \<in> set (tasks_of (fetch_for_expiry export) grouped days)"
  shows "filter is_scheduling (task_events t) = []"
proof -
  from assms(2) obtain d ms where g: "(d, ms) \<in> set grouped"
    and t: "t = (d, fetch_for_expiry export ms d days)"
    by (auto simp: tasks_of_def)
  from g assms(1) have "window_computable days (d, ms)" by (simp add: list_all_iff)
  then show ?thesis
    by (simp add: t task_events_def fetch_for_expiry_in_range is_scheduling_def)
qed

lemma tasks_of_fetches:
  assumes "list_all (window_computable days) grouped"
  shows "concat (map (\<lambda>t. filter is_fetch (task_events t))
                   (tasks_of (fetch_for_expiry export) grouped days))
           = map (\<lambda>(d, ms). Fetch ms (window_start d days) (combine_min_time d)) grouped"
  using assms
  by (induction grouped)
     (auto simp: tasks_of_def task_events_def fetch_for_expiry_in_range is_fetch_def)

lemma save_grouped_unfold:
  assumes "grouped \<noteq> []"
  shows "save_grouped fetch grouped days =
           (case snd (batch_loop (tasks_of fetch grouped days) 0 []) of
              Inl e \<Rightarrow> (fst (batch_loop (tasks_of fetch grouped days) 0 []), Inl e)
            | Inr results \<Rightarrow>
                (fst (batch_loop (tasks_of fetch grouped days) 0 [])
                   @ [Print (MsgCompleted (count_list results True) (length grouped))],
                 Inr PyNone))"
  using assms
  by (simp add: save_grouped_def tasks_of_def case_prod_unfold Let_def split: sum.splits)

lemma save_grouped_in_range:
  assumes "grouped \<noteq> []" "list_all (window_computable days) grouped"
  shows "save_grouped (fetch_for_expiry export) grouped days =
           (fst (batch_loop (tasks_of (fetch_for_expiry export) grouped days) 0 [])
              @ [Print (MsgCompleted (count_list (map (export_ok export days) grouped) True)
                          (length grouped))],
            Inr PyNone)"
  using batch_loop_results [OF tasks_of_results [OF assms(2)], of export 0 "[]"]
  by (simp add: save_grouped_unfold [OF assms(1)])

lemma count_list_map_True: "count_list (map P xs) True = length (filter P xs)"
  by (induction xs) auto

lemma batches_of_map: "batches_of n (map f xs) = map (map f) (batches_of n xs)"
proof (induction n xs rule: batches_of.induct)
  case (1 n xs)
  show ?case
  proof (cases "n = 0 \<or> xs = []")
    case True
    then show ?thesis by (auto simp: batches_of.simps)
  next
    case False
    with 1 show ?thesis by (simp add: batches_of_step take_map drop_map)
  qed
qed

lemma save_grouped_scheduling:
  assumes "list_all (window_computable days) grouped"
  shows "filter is_scheduling (fst (save_grouped (fetch_for_expiry export) grouped days))
           = pause_between (Sleep 2) (map Gather (batches_of 5 (map fst grouped)))"
proof (cases "grouped = []")
  case True
  then show ?thesis by (simp add: save_grouped_def is_scheduling_def)
next
  case False
  let ?tasks = "tasks_of (fetch_for_expiry export) grouped days"
  have "filter is_scheduling (fst (batch_loop ?tasks 0 []))
          = pause_between (Sleep 2) (map (\<lambda>b. Gather (map fst b)) (batches_of 5 (drop 0 ?tasks)))"
    by (rule batch_loop_scheduling [OF tasks_of_results [OF assms]])
       (rule tasks_of_no_scheduling [OF assms])
  also have "map (\<lambda>b. Gather (map fst b)) (batches_of 5 (drop 0 ?tasks))
               = map Gather (batches_of 5 (map fst grouped))"
    using batches_of_map [of 5 fst ?tasks] by (simp add: tasks_of_keys comp_def)
  finally have "filter is_scheduling (fst (batch_loop ?tasks 0 []))
                  = pause_between (Sleep 2) (map Gather (batches_of 5 (map fst grouped)))" .
  moreover have "filter is_scheduling [Print m] = []" for m
    by (simp add: is_scheduling_def)
  ultimately show ?thesis
    by (simp add: save_grouped_in_range [OF False assms])
qed

lemma save_grouped_fetches:
  assumes "list_all (window_computable days) grouped"
  shows "filter is_fetch (fst (save_grouped (fetch_for_expiry export) grouped days))
           = map (\<lambda>(d, ms). Fetch ms (window_start d days) (combine_min_time d)) grouped"
proof (cases "grouped = []")
  case True
  then show ?thesis by (simp add: save_grouped_def is_fetch_def)
next
  case False
  let ?tasks = "tasks_of (fetch_for_expiry export) grouped days"
  have "filter is_fetch (fst (batch_loop ?tasks 0 []))
          = concat (map (\<lambda>t. filter is_fetch (task_events t)) (drop 0 ?tasks))"
    by (rule batch_loop_fetches [OF tasks_of_results [OF assms]])
  moreover have "filter is_fetch [Print m] = []" for m
    by (simp add: is_fetch_def)
  ultimately show ?thesis
    using tasks_of_fetches [OF assms, of export]
    by (simp add: save_grouped_in_range [OF False assms])
qed

lemma save_grouped_returns_None:
  "snd (save_grouped fetch grouped days) \<noteq> Inr (PyInt n)"
  by (cases "grouped = []")
     (simp_all add: save_grouped_def case_prod_unfold Let_def split: sum.splits)

lemma batches_of_12:
  assumes "length ks = 12"
  shows "batches_of 5 ks = [take 5 ks, take 5 (drop 5 ks), drop 10 ks]"
proof -
  have 1: "ks \<noteq> []" "drop 5 ks \<noteq> []" "drop 10 ks \<noteq> []" "drop 15 ks = []"
    using assms by auto
  have "batches_of 5 ks = take 5 ks # batches_of 5 (drop 5 ks)"
    using batches_of_step [OF _ 1(1), of 5] by simp
  also have "batches_of 5 (drop 5 ks) = take 5 (drop 5 ks) # batches_of 5 (drop 10 ks)"
    using batches_of_step [OF _ 1(2), of 5] by simp
  also have "batches_of 5 (drop 10 ks) = take 5 (drop 10 ks) # batches_of 5 (drop 15 ks)"
    using batches_of_step [OF _ 1(3), of 5] by simp
  also have "take 5 (drop 10 ks) = drop 10 ks" using assms by simp
  finally show ?thesis using 1(4) by simp
qed

section \<open>The orchestrator\<close>

lemma successes_in_range:
  assumes "list_all (window_computable days) grouped"
  shows "filter (\<lambda>(d, ms). snd (fetch_for_expiry export ms d days) = Inr True) grouped
           = filter (export_ok export days) grouped"
proof (rule filter_cong [OF refl])
  fix g assume "g \<in> set grouped"
  with assms have "window_computable days (fst g, snd g)" by (simp add: list_all_iff)
  from fetch_for_expiry_in_range [OF this, of export]
  show "(case g of (d, ms) \<Rightarrow> snd (fetch_for_expiry export ms d days) = Inr True)
          = export_ok export days g"
    by (simp add: case_prod_unfold)
qed

lemma save_grouped_last:
  assumes "grouped \<noteq> []" "list_all (window_computable days) grouped"
  shows "last (fst (save_grouped (fetch_for_expiry export) grouped days))
           = Print (MsgCompleted (length (filter (export_ok export days) grouped)) (length grouped))"
  by (simp add: save_grouped_in_range [OF assms] count_list_map_True)

lemma save_grouped_value:
  assumes "list_all (window_computable days) grouped"
  shows "snd (save_grouped (fetch_for_expiry export) grouped days) = Inr PyNone"
proof (cases "grouped = []")
  case True
  then show ?thesis by (simp add: save_grouped_def)
next
  case False
  then show ?thesis by (simp add: save_grouped_in_range [OF False assms])
qed

text \<open>
  Claim C2, amended. For every non-empty mapping of expiry dates to market lists whose
  windows can be computed, \<^verbatim>\<open>save_greeks_data\<close> and \<^verbatim>\<open>save_implied_volatility_data\<close> return
  \<^verbatim>\<open>None\<close>; the number of groups whose fetch task returned \<^verbatim>\<open>True\<close> is not returned but
  printed, with the number of groups, in the last line of the run.
\<close>

theorem orchestrator_reports_count:
  assumes "grouped \<noteq> []" "list_all (window_computable days) grouped"
  shows "snd (save_greeks_data c grouped days) = Inr PyNone
       \<and> last (fst (save_greeks_data c grouped days))
           = Print (MsgCompleted
               (length (filter (\<lambda>(d, ms). snd (fetch_greeks_for_expiry c ms d days) = Inr True)
                          grouped))
               (length grouped))
       \<and> snd (save_implied_volatility_data c grouped days) = Inr PyNone
       \<and> last (fst (save_implied_volatility_data c grouped days))
           = Print (MsgCompleted
               (length (filter (\<lambda>(d, ms). snd (fetch_iv_for_expiry c ms d days) = Inr True)
                          grouped))
               (length grouped))"
  unfolding save_greeks_data_def save_implied_volatility_data_def
    fetch_greeks_for_expiry_def fetch_iv_for_expiry_def
  using save_grouped_value [OF assms(2)] save_grouped_last [OF assms]
    successes_in_range [OF assms(2)]
  by simp

lemma window_computable_example: "window_computable 22 (739233, ms)"
  by (simp add: window_computable_def valid_date_def date_min_def date_max_def)

text \<open>An instance: one group, and a client that always returns.\<close>

theorem orchestrator_reports_count_witness:
  "[(739233, [''deribit-BTC-13DEC24-100000-C-option''])] \<noteq> []
   \<and> list_all (window_computable 22) [(739233, [''deribit-BTC-13DEC24-100000-C-option''])]
   \<and> snd (save_greeks_data
        \<lparr>get_market_greeks = (\<lambda>ms s t. None), get_market_implied_volatility = (\<lambda>ms s t. None)\<rparr>
        [(739233, [''deribit-BTC-13DEC24-100000-C-option''])] 22) = Inr PyNone
   \<and> last (fst (save_greeks_data
        \<lparr>get_market_greeks = (\<lambda>ms s t. None), get_market_implied_volatility = (\<lambda>ms s t. None)\<rparr>
        [(739233, [''deribit-BTC-13DEC24-100000-C-option''])] 22)) = Print (MsgCompleted 1 1)"
proof -
  let ?c = "\<lparr>get_market_greeks = (\<lambda>ms s t. None), get_market_implied_volatility = (\<lambda>ms s t. None)\<rparr>"
  let ?g = "[(739233::int, [''deribit-BTC-13DEC24-100000-C-option''])]"
  have w: "list_all (window_computable 22) ?g"
    by (simp add: window_computable_def valid_date_def date_min_def date_max_def)
  have ne: "?g \<noteq> []" by simp
  have t: "snd (fetch_greeks_for_expiry ?c [''deribit-BTC-13DEC24-100000-C-option''] 739233 22)
             = Inr True"
    using fetch_for_expiry_in_range [OF window_computable_example]
    by (simp add: fetch_greeks_for_expiry_def export_ok_def)
  from orchestrator_reports_count [OF ne w, of ?c] t w show ?thesis
    by simp
qed

text \<open>On that input the one fetch task returns \<^verbatim>\<open>True\<close>, so one group succeeded, and the value
  returned is \<^verbatim>\<open>None\<close>, not 1.\<close>

theorem orchestrator_returns_None_counterexample:
  "snd (fetch_greeks_for_expiry
        \<lparr>get_market_greeks = (\<lambda>ms s t. None), get_market_implied_volatility = (\<lambda>ms s t. None)\<rparr>
        [''deribit-BTC-13DEC24-100000-C-option''] 739233 22) = Inr True
   \<and> snd (save_greeks_data
        \<lparr>get_market_greeks = (\<lambda>ms s t. None), get_market_implied_volatility = (\<lambda>ms s t. None)\<rparr>
        [(739233, [''deribit-BTC-13DEC24-100000-C-option''])] 22) = Inr PyNone
   \<and> snd (save_greeks_data
        \<lparr>get_market_greeks = (\<lambda>ms s t. None), get_market_implied_volatility = (\<lambda>ms s t. None)\<rparr>
        [(739233, [''deribit-BTC-13DEC24-100000-C-option''])] 22) \<noteq> Inr (PyInt 1)"
proof -
  let ?c = "\<lparr>get_market_greeks = (\<lambda>ms s t. None), get_market_implied_volatility = (\<lambda>ms s t. None)\<rparr>"
  let ?g = "[(739233::int, [''deribit-BTC-13DEC24-100000-C-option''])]"
  have w: "list_all (window_computable 22) ?g"
    by (simp add: window_computable_def valid_date_def date_min_def date_max_def)
  have t: "snd (fetch_greeks_for_expiry ?c [''deribit-BTC-13DEC24-100000-C-option''] 739233 22)
             = Inr True"
    using fetch_for_expiry_in_range [OF window_computable_example]
    by (simp add: fetch_greeks_for_expiry_def export_ok_def)
  have "snd (save_greeks_data ?c ?g 22) = Inr PyNone"
    unfolding save_greeks_data_def fetch_greeks_for_expiry_def
    by (rule save_grouped_value [OF w])
  with t show ?thesis by simp
qed

text \<open>
  Claim C5, amended. When the windows of all groups can be computed, so that no fetch task
  raises, the batches handed to \<^verbatim>\<open>asyncio.gather\<close> and the calls of \<^verbatim>\<open>asyncio.sleep\<close> occur in
  this order: the batches are the consecutive batches of at most 5 of the list of tasks, in
  order, with one sleep of 2 seconds between each two consecutive batches and none after
  the last. The batches together are the whole list, and each holds between 1 and 5 tasks.
  For 12 groups there are the three batches of tasks 1 to 5, 6 to 10 and 11 to 12, and two
  sleeps.
\<close>

theorem batches_and_pauses:
  assumes "list_all (window_computable days) grouped"
  shows "filter is_scheduling (fst (save_greeks_data c grouped days))
           = pause_between (Sleep 2)
               (map Gather (batches_of MAX_CONCURRENT_TASKS (map fst grouped)))
       \<and> concat (batches_of MAX_CONCURRENT_TASKS (map fst grouped)) = map fst grouped
       \<and> list_all (\<lambda>b. 0 < length b \<and> length b \<le> MAX_CONCURRENT_TASKS)
           (batches_of MAX_CONCURRENT_TASKS (map fst grouped))
       \<and> (length grouped = 12 \<longrightarrow>
            filter is_scheduling (fst (save_greeks_data c grouped days))
              = [Gather (take 5 (map fst grouped)), Sleep 2,
                 Gather (take 5 (drop 5 (map fst grouped))), Sleep 2,
                 Gather (drop 10 (map fst grouped))])"
proof -
  have 1: "filter is_scheduling (fst (save_greeks_data c grouped days))
           = pause_between (Sleep 2)
               (map Gather (batches_of MAX_CONCURRENT_TASKS (map fst grouped)))"
    unfolding save_greeks_data_def fetch_greeks_for_expiry_def MAX_CONCURRENT_TASKS_def
    by (rule save_grouped_scheduling [OF assms])
  have 2: "concat (batches_of MAX_CONCURRENT_TASKS (map fst grouped)) = map fst grouped"
    by (simp add: concat_batches_of MAX_CONCURRENT_TASKS_def)
  have 3: "list_all (\<lambda>b. 0 < length b \<and> length b \<le> MAX_CONCURRENT_TASKS)
           (batches_of MAX_CONCURRENT_TASKS (map fst grouped))"
    unfolding list_all_iff MAX_CONCURRENT_TASKS_def
    using batches_of_sizes [of 5 _ "map fst grouped"] by simp
  have 4: "filter is_scheduling (fst (save_greeks_data c grouped days))
              = [Gather (take 5 (map fst grouped)), Sleep 2,
                 Gather (take 5 (drop 5 (map fst grouped))), Sleep 2,
                 Gather (drop 10 (map fst grouped))]" if "length grouped = 12"
  proof -
    from that have "length (map fst grouped) = 12" by simp
    from batches_of_12 [OF this] show ?thesis
      unfolding 1 MAX_CONCURRENT_TASKS_def by simp
  qed
  from 1 2 3 4 show ?thesis by blast
qed

text \<open>
  Claim C6, amended. When the windows of all groups can be computed, then whatever the
  client does: the result of each fetch task is \<^verbatim>\<open>True\<close> if the client returned on its
  group and \<^verbatim>\<open>False\<close> if it raised; the orchestrator does not raise; the client is called
  once for every group, in order, so no task is skipped because another failed; and the
  last line reports as successful exactly the groups on which the client returned.
\<close>

theorem failure_is_contained:
  assumes "list_all (window_computable days) grouped"
  shows "map (\<lambda>(d, ms). snd (fetch_greeks_for_expiry c ms d days)) grouped
           = map (\<lambda>(d, ms). Inr (get_market_greeks c ms (window_start d days) (combine_min_time d)
                                   = None)) grouped
       \<and> snd (save_greeks_data c grouped days) = Inr PyNone
       \<and> filter is_fetch (fst (save_greeks_data c grouped days))
           = map (\<lambda>(d, ms). Fetch ms (window_start d days) (combine_min_time d)) grouped
       \<and> (grouped \<noteq> [] \<longrightarrow>
            last (fst (save_greeks_data c grouped days))
              = Print (MsgCompleted
                  (length (filter (\<lambda>(d, ms). get_market_greeks c ms (window_start d days)
                                              (combine_min_time d) = None) grouped))
                  (length grouped)))"
proof -
  have 1: "map (\<lambda>(d, ms). snd (fetch_greeks_for_expiry c ms d days)) grouped
           = map (\<lambda>(d, ms). Inr (get_market_greeks c ms (window_start d days) (combine_min_time d)
                                   = None)) grouped"
  proof (rule map_cong [OF refl])
    fix g assume "g \<in> set grouped"
    with assms have "window_computable days (fst g, snd g)" by (simp add: list_all_iff)
    from fetch_for_expiry_in_range [OF this, of "get_market_greeks c"]
    show "(case g of (d, ms) \<Rightarrow> snd (fetch_greeks_for_expiry c ms d days))
            = (case g of (d, ms) \<Rightarrow>
                 Inr (get_market_greeks c ms (window_start d days) (combine_min_time d) = None))"
      by (simp add: case_prod_unfold fetch_greeks_for_expiry_def export_ok_def)
  qed
  have 2: "snd (save_greeks_data c grouped days) = Inr PyNone"
    unfolding save_greeks_data_def fetch_greeks_for_expiry_def
    by (rule save_grouped_value [OF assms])
  have 3: "filter is_fetch (fst (save_greeks_data c grouped days))
           = map (\<lambda>(d, ms). Fetch ms (window_start d days) (combine_min_time d)) grouped"
    unfolding save_greeks_data_def fetch_greeks_for_expiry_def
    by (rule save_grouped_fetches [OF assms])
  have e: "export_ok (get_market_greeks c) days
             = (\<lambda>(d, ms). get_market_greeks c ms (window_start d days) (combine_min_time d) = None)"
    by (auto simp: export_ok_def fun_eq_iff)
  have 4: "last (fst (save_greeks_data c grouped days))
              = Print (MsgCompleted
                  (length (filter (\<lambda>(d, ms). get_market_greeks c ms (window_start d days)
                                              (combine_min_time d) = None) grouped))
                  (length grouped))" if "grouped \<noteq> []"
    unfolding save_greeks_data_def fetch_greeks_for_expiry_def
    using save_grouped_last [OF that assms, of "get_market_greeks c"] by (simp add: e)
  from 1 2 3 4 show ?thesis by blast
qed

section \<open>The orchestrator and the grouper on the examples\<close>

text \<open>An instance: twelve groups.\<close>

theorem batches_and_pauses_witness:
  "list_all (window_computable 22) twelve_groups
   \<and> length twelve_groups = 12
   \<and> filter is_scheduling (fst (save_greeks_data (fails_for [''c'']) twelve_groups 22))
       = [Gather [739233, 739240, 739247, 739254, 739261], Sleep 2,
          Gather [739268, 739275, 739282, 739289, 739296], Sleep 2,
          Gather [739303, 739310]]"
proof -
  have w: "list_all (window_computable 22) twelve_groups"
    by (simp add: twelve_groups_def window_computable_def valid_date_def date_min_def
        date_max_def)
  have l: "length twelve_groups = 12" by (simp add: twelve_groups_def)
  from batches_and_pauses [OF w, of "fails_for [''c'']"] l
  have "filter is_scheduling (fst (save_greeks_data (fails_for [''c'']) twelve_groups 22))
          = [Gather (take 5 (map fst twelve_groups)), Sleep 2,
             Gather (take 5 (drop 5 (map fst twelve_groups))), Sleep 2,
             Gather (drop 10 (map fst twelve_groups))]"
    by blast
  then show ?thesis using w l by (simp add: twelve_groups_def)
qed

text \<open>An instance: three groups, the client raising on the second.\<close>

theorem failure_is_contained_witness:
  "list_all (window_computable 22) three_groups
   \<and> three_groups \<noteq> []
   \<and> map (\<lambda>(d, ms). snd (fetch_greeks_for_expiry
                            (fails_for [''deribit-BTC-20DEC24-100000-P-option'']) ms d 22))
        three_groups = [Inr True, Inr False, Inr True]
   \<and> snd (save_greeks_data (fails_for [''deribit-BTC-20DEC24-100000-P-option'']) three_groups 22)
       = Inr PyNone
   \<and> filter is_fetch
        (fst (save_greeks_data (fails_for [''deribit-BTC-20DEC24-100000-P-option''])
                three_groups 22))
       = [Fetch [''deribit-BTC-13DEC24-100000-C-option'']
            \<lparr>dt_date = 739211, dt_micro = 0\<rparr> \<lparr>dt_date = 739233, dt_micro = 0\<rparr>,
          Fetch [''deribit-BTC-20DEC24-100000-P-option'']
            \<lparr>dt_date = 739218, dt_micro = 0\<rparr> \<lparr>dt_date = 739240, dt_micro = 0\<rparr>,
          Fetch [''deribit-BTC-27DEC24-100000-C-option'']
            \<lparr>dt_date = 739225, dt_micro = 0\<rparr> \<lparr>dt_date = 739247, dt_micro = 0\<rparr>]
   \<and> last (fst (save_greeks_data (fails_for [''deribit-BTC-20DEC24-100000-P-option''])
                   three_groups 22))
       = Print (MsgCompleted 2 3)"
proof -
  have w: "list_all (window_computable 22) three_groups"
    by (simp add: three_groups_def window_computable_def valid_date_def date_min_def
        date_max_def)
  have ne: "three_groups \<noteq> []" by (simp add: three_groups_def)
  from failure_is_contained [OF w, of "fails_for [''deribit-BTC-20DEC24-100000-P-option'']"] ne w
  show ?thesis
    by (simp add: three_groups_def fails_for_def window_start_def combine_min_time_def)
qed

text \<open>An instance: the range from 2024-12-01 to 2024-12-31 on the example catalog.\<close>

theorem grouping_partitions_range_witness:
  "well_formed \<lparr>dt_date = 739221, dt_micro = 0\<rparr>
   \<and> well_formed \<lparr>dt_date = 739251, dt_micro = 0\<rparr>
   \<and> list_all (\<lambda>r. well_formed (expiration_date r)) example_catalog
   \<and> fetch_markets_by_expiry_date example_catalog
       \<lparr>dt_date = 739221, dt_micro = 0\<rparr> \<lparr>dt_date = 739251, dt_micro = 0\<rparr>
     = [(739233, [''deribit-BTC-13DEC24-100000-C-option'', ''deribit-BTC-13DEC24-100000-P-option'']),
        (739240, [''deribit-BTC-20DEC24-100000-P-option''])]
   \<and> distinct (map fst (fetch_markets_by_expiry_date example_catalog
       \<lparr>dt_date = 739221, dt_micro = 0\<rparr> \<lparr>dt_date = 739251, dt_micro = 0\<rparr>))
   \<and> mset (concat (map snd (fetch_markets_by_expiry_date example_catalog
       \<lparr>dt_date = 739221, dt_micro = 0\<rparr> \<lparr>dt_date = 739251, dt_micro = 0\<rparr>)))
     = mset (map market (filter
         (expires_within \<lparr>dt_date = 739221, dt_micro = 0\<rparr> \<lparr>dt_date = 739251, dt_micro = 0\<rparr>)
         example_catalog))
   \<and> map market (filter
         (expires_within \<lparr>dt_date = 739221, dt_micro = 0\<rparr> \<lparr>dt_date = 739251, dt_micro = 0\<rparr>)
         example_catalog)
     = [''deribit-BTC-13DEC24-100000-C-option'', ''deribit-BTC-20DEC24-100000-P-option'',
        ''deribit-BTC-13DEC24-100000-P-option'']"
proof -
  let ?s = "\<lparr>dt_date = 739221, dt_micro = 0\<rparr>" and ?e = "\<lparr>dt_date = 739251, dt_micro = 0\<rparr>"
  have s: "well_formed ?s" and e: "well_formed ?e" by (simp_all add: well_formed_def)
  have c: "list_all (\<lambda>r. well_formed (expiration_date r)) example_catalog"
    by (simp add: example_catalog_def well_formed_def)
  have v: "fetch_markets_by_expiry_date example_catalog ?s ?e
     = [(739233, [''deribit-BTC-13DEC24-100000-C-option'', ''deribit-BTC-13DEC24-100000-P-option'']),
        (739240, [''deribit-BTC-20DEC24-100000-P-option''])]"
    by (simp add: fetch_markets_by_expiry_date_def groupby_date_def example_catalog_def
        expiry_in_range_def datetime_le_def expiry_day_def)
  have m: "map market (filter (expires_within ?s ?e) example_catalog)
     = [''deribit-BTC-13DEC24-100000-C-option'', ''deribit-BTC-20DEC24-100000-P-option'',
        ''deribit-BTC-13DEC24-100000-P-option'']"
    by (simp add: example_catalog_def expires_within_def instant_def)
  from grouping_partitions_range [OF s e c]
  have "distinct (map fst (fetch_markets_by_expiry_date example_catalog ?s ?e))
   \<and> mset (concat (map snd (fetch_markets_by_expiry_date example_catalog ?s ?e)))
     = mset (map market (filter (expires_within ?s ?e) example_catalog))"
    by (simp only: Let_def)
  with s e c v m show ?thesis by blast
qed

section \<open>A window that cannot be computed\<close>

text \<open>
  The window is computed before the \<^verbatim>\<open>try\<close> of the fetch task, and \<^verbatim>\<open>asyncio.gather\<close> is
  called without \<^verbatim>\<open>return_exceptions\<close>. When the window of the first group cannot be computed,
  its task raises, the first batch is the only one handed to \<^verbatim>\<open>asyncio.gather\<close>, and the
  exception leaves the orchestrator.
\<close>

lemma batch_loop_raises:
  assumes "i < length tasks"
    and "first_exception (map task_result (take 5 (drop i tasks))) = Inl e"
  shows "batch_loop tasks i results =
           (Gather (map fst (take 5 (drop i tasks)))
              # concat (map task_events (take 5 (drop i tasks))), Inl e)"
  using assms
  by (subst batch_loop.simps) (simp add: MAX_CONCURRENT_TASKS_def gather_def Let_def)

lemma fetch_for_expiry_overflow:
  assumes "valid_date d" "d \<le> days"
  shows "fetch_for_expiry export ms d days = ([], Inl OverflowError)"
  by (simp add: fetch_for_expiry_def calculate_data_period_overflow [OF assms])

lemma save_grouped_first_raises:
  assumes "valid_date d" "d \<le> days"
  shows "save_grouped (fetch_for_expiry export) ((d, ms) # rest) days =
           (Gather (map fst (take 5 ((d, ms) # rest)))
              # concat (map task_events
                          (take 5 (tasks_of (fetch_for_expiry export) ((d, ms) # rest) days))),
            Inl OverflowError)"
proof -
  let ?tasks = "tasks_of (fetch_for_expiry export) ((d, ms) # rest) days"
  have t: "?tasks = (d, [], Inl OverflowError) # tasks_of (fetch_for_expiry export) rest days"
    by (simp add: tasks_of_def fetch_for_expiry_overflow [OF assms])
  have "first_exception (map task_result (take 5 (drop 0 ?tasks))) = Inl OverflowError"
    unfolding t by (simp add: task_result_def)
  from batch_loop_raises [OF _ this, of "[]"]
  have "batch_loop ?tasks 0 [] =
          (Gather (map fst (take 5 ?tasks)) # concat (map task_events (take 5 ?tasks)),
           Inl OverflowError)"
    by (simp add: t)
  moreover have "map fst (take 5 ?tasks) = map fst (take 5 ((d, ms) # rest))"
    by (simp add: take_map [symmetric] tasks_of_keys del: take_map)
  ultimately show ?thesis
    using save_grouped_unfold [of "(d, ms) # rest" "fetch_for_expiry export" days]
    by simp
qed

text \<open>
  Twelve groups with a lookback of 739235 days, which reaches back before day 1 from the
  first expiry only: one batch of five is gathered, there is no sleep and no later batch,
  and the orchestrator raises.
\<close>

theorem batches_cut_short_counterexample:
  "length twelve_groups = 12
   \<and> filter is_scheduling (fst (save_greeks_data always_returns twelve_groups 739235))
       = [Gather [739233, 739240, 739247, 739254, 739261]]
   \<and> snd (save_greeks_data always_returns twelve_groups 739235) = Inl OverflowError"
proof -
  have v: "valid_date 739233" by (simp add: valid_date_def date_min_def date_max_def)
  have w: "list_all (window_computable 739235)
             [(739240, [''b'']), (739247, [''c'']), (739254, [''d'']), (739261, [''e''])]"
    by (simp add: window_computable_def valid_date_def date_min_def date_max_def)
  have g: "twelve_groups = (739233, [''a'']) # tl twelve_groups"
    by (simp add: twelve_groups_def)
  have "save_greeks_data always_returns twelve_groups 739235 =
           (Gather (map fst (take 5 twelve_groups))
              # concat (map task_events
                          (take 5 (tasks_of (fetch_for_expiry (get_market_greeks always_returns))
                                     twelve_groups 739235))),
            Inl OverflowError)"
    unfolding save_greeks_data_def fetch_greeks_for_expiry_def
    by (subst (1 2 3) g) (rule save_grouped_first_raises [OF v], simp)
  moreover have "filter is_scheduling
          (concat (map task_events
                     (take 5 (tasks_of (fetch_for_expiry (get_market_greeks always_returns))
                                twelve_groups 739235)))) = []"
    using fetch_for_expiry_overflow [OF v, of 739235]
    by (simp add: twelve_groups_def tasks_of_def task_events_def is_scheduling_def
        fetch_for_expiry_in_range window_computable_def valid_date_def date_min_def date_max_def)
  ultimately show ?thesis
    by (simp add: twelve_groups_def is_scheduling_def)
qed

text \<open>
  Three groups with the same lookback, the client raising on the second: the task of the
  second group returns \<^verbatim>\<open>False\<close>, the task of the first raises \<^verbatim>\<open>OverflowError\<close>, and so does
  the orchestrator.
\<close>

theorem window_failure_escapes_counterexample:
  "snd (fetch_greeks_for_expiry (fails_for [''deribit-BTC-20DEC24-100000-P-option''])
          [''deribit-BTC-13DEC24-100000-C-option''] 739233 739235) = Inl OverflowError
   \<and> snd (fetch_greeks_for_expiry (fails_for [''deribit-BTC-20DEC24-100000-P-option''])
          [''deribit-BTC-20DEC24-100000-P-option''] 739240 739235) = Inr False
   \<and> snd (save_greeks_data (fails_for [''deribit-BTC-20DEC24-100000-P-option''])
          three_groups 739235) = Inl OverflowError"
proof -
  let ?c = "fails_for [''deribit-BTC-20DEC24-100000-P-option'']"
  have v: "valid_date 739233" by (simp add: valid_date_def date_min_def date_max_def)
  have 1: "snd (fetch_greeks_for_expiry ?c [''deribit-BTC-13DEC24-100000-C-option'']
                  739233 739235) = Inl OverflowError"
    using fetch_for_expiry_overflow [OF v, of 739235]
    by (simp add: fetch_greeks_for_expiry_def)
  have "window_computable 739235 (739240, [''deribit-BTC-20DEC24-100000-P-option''])"
    by (simp add: window_computable_def valid_date_def date_min_def date_max_def)
  from fetch_for_expiry_in_range [OF this, of "get_market_greeks ?c"]
  have 2: "snd (fetch_greeks_for_expiry ?c [''deribit-BTC-20DEC24-100000-P-option'']
                  739240 739235) = Inr False"
    by (simp add: fetch_greeks_for_expiry_def export_ok_def fails_for_def)
  have 3: "snd (save_greeks_data ?c three_groups 739235) = Inl OverflowError"
    unfolding save_greeks_data_def fetch_greeks_for_expiry_def three_groups_def
    by (subst save_grouped_first_raises [OF v]) simp_all
  from 1 2 3 show ?thesis by simp
qed

end
